theory Spec2Isabelle
  imports Main "HOL-Library.Sublist" "HOL-Library.AList" "HOL-Library.Char_ord"
    "HOL-Library.List_Lexorder"
begin

section \<open>Python string operations used by pull.py\<close>

text \<open>
  Strings are lists of characters. The program only ever inspects the ASCII characters
  \<open>/\<close>, \<open>:\<close>, \<open>@\<close> and \<open>_\<close>, so nothing depends on how other code points are
  encoded.
\<close>

text \<open>\<^verbatim>\<open>sub in s\<close>: some suffix of \<open>s\<close> starts with \<open>sub\<close>.\<close>

fun str_contains :: "string \<Rightarrow> string \<Rightarrow> bool" where
  "str_contains sub [] = (sub = [])"
| "str_contains sub (c # cs) = (prefix sub (c # cs) \<or> str_contains sub cs)"

text \<open>
  \<^verbatim>\<open>s.split(sep)\<close> for a non-empty separator: scan from the left, cut at every
  occurrence of \<open>sep\<close> and continue after it. \<open>cur\<close> is the piece collected so far.
  (Python raises for an empty separator; every call in pull.py passes a non-empty
  literal.)
\<close>

fun split_from :: "string \<Rightarrow> string \<Rightarrow> string \<Rightarrow> string list" where
  "split_from sep cur [] = [cur]"
| "split_from sep cur (c # cs) =
     (if prefix sep (c # cs) then cur # split_from sep [] (drop (length sep - 1) cs)
      else split_from sep (cur @ [c]) cs)"

definition str_split :: "string \<Rightarrow> string \<Rightarrow> string list" where
  "str_split sep s = split_from sep [] s"

text \<open>\<^verbatim>\<open>sep.join(xs)\<close>.\<close>

fun str_join :: "string \<Rightarrow> string list \<Rightarrow> string" where
  "str_join sep [] = []"
| "str_join sep [x] = x"
| "str_join sep (x # y # ys) = x @ sep @ str_join sep (y # ys)"

text \<open>\<^verbatim>\<open>s.replace(old, new)\<close> for non-empty \<open>old\<close>: every non-overlapping occurrence,
  found from the left, is replaced.\<close>

definition str_replace :: "string \<Rightarrow> string \<Rightarrow> string \<Rightarrow> string" where
  "str_replace old new s = str_join new (str_split old s)"

section \<open>Errors\<close>

datatype error =
    ValueError string
  | FileNotFoundError string
  | FileExistsError string
  | IsADirectoryError string
  | NotADirectoryError string
  | KeyError string
  | TypeError
  | AttributeError
  | RequestFailed string

text \<open>\<^verbatim>\<open>a, b = xs\<close>: unpacking into two names raises ValueError unless \<open>xs\<close> has
  exactly two elements.\<close>

definition unpack2 :: "string list \<Rightarrow> error + (string \<times> string)" where
  "unpack2 xs =
     (case xs of
        [] \<Rightarrow> Inl (ValueError ''not enough values to unpack (expected 2, got 0)'')
      | [a] \<Rightarrow> Inl (ValueError ''not enough values to unpack (expected 2, got 1)'')
      | [a, b] \<Rightarrow> Inr (a, b)
      | _ \<Rightarrow> Inl (ValueError ''too many values to unpack (expected 2)''))"

section \<open>Reference parser\<close>

definition image_and_ref_of :: "string list \<Rightarrow> string" where
  "image_and_ref_of parts = str_join ''/'' (drop 2 parts)"

definition parse_docker_pull_link :: "string \<Rightarrow> error + (string \<times> string \<times> string \<times> string)" where
  "parse_docker_pull_link pull_link =
     (if str_contains ''://'' pull_link then
        Inl (ValueError ''Docker pull link should not include protocol (e.g., http://).'')
      else
        let parts = str_split ''/'' pull_link in
        if length parts < 3 then
          Inl (ValueError (''Invalid Docker pull link format. Expected: ''
                 @ ''<harbor-host>/<project>/<image>:<tag> or ''
                 @ ''<harbor-host>/<project>/<image>/<image-name>@sha256:<digest>''))
        else
          let harbor_host = parts ! 0;
              project_name = parts ! 1;
              image_and_ref = image_and_ref_of parts
          in
            if str_contains ''@sha256:'' image_and_ref then
              (case unpack2 (str_split ''@sha256:'' image_and_ref) of
                 Inl e \<Rightarrow> Inl e
               | Inr (image_name, image_ref) \<Rightarrow>
                   Inr (harbor_host, project_name, image_name, ''sha256:'' @ image_ref))
            else if str_contains '':'' image_and_ref then
              (case unpack2 (str_split '':'' image_and_ref) of
                 Inl e \<Rightarrow> Inl e
               | Inr (image_name, image_ref) \<Rightarrow>
                   Inr (harbor_host, project_name, image_name, image_ref))
            else Inr (harbor_host, project_name, image_and_ref, ''latest''))"

section \<open>JSON values as Python sees them\<close>

text \<open>
  What \<^verbatim>\<open>json.load\<close> returns. An object is the dictionary already built (keys distinct,
  in insertion order). A number is an integer: the program only ever tests a number for
  being zero, and rejects it as a manifest either way.
\<close>

datatype json =
    JNull
  | JBool bool
  | JNum int
  | JStr string
  | JArr "json list"
  | JObj "(string \<times> json) list"

text \<open>Python truthiness, as in \<^verbatim>\<open>if not manifest\<close>.\<close>

fun truthy :: "json \<Rightarrow> bool" where
  "truthy JNull = False"
| "truthy (JBool b) = b"
| "truthy (JNum n) = (n \<noteq> 0)"
| "truthy (JStr s) = (s \<noteq> [])"
| "truthy (JArr xs) = (xs \<noteq> [])"
| "truthy (JObj kvs) = (kvs \<noteq> [])"

text \<open>\<^verbatim>\<open>x[key]\<close> with a string key: only a dictionary accepts it.\<close>

fun subscript :: "json \<Rightarrow> string \<Rightarrow> error + json" where
  "subscript (JObj kvs) k = (case map_of kvs k of None \<Rightarrow> Inl (KeyError k) | Some v \<Rightarrow> Inr v)"
| "subscript _ k = Inl TypeError"


text \<open>\<^verbatim>\<open>for x in v\<close>: a list yields its elements, a dictionary its keys, a string its
  characters; nothing else is iterable.\<close>

fun json_iter :: "json \<Rightarrow> error + json list" where
  "json_iter (JArr xs) = Inr xs"
| "json_iter (JObj kvs) = Inr (map (\<lambda>kv. JStr (fst kv)) kvs)"
| "json_iter (JStr s) = Inr (map (\<lambda>c. JStr [c]) s)"
| "json_iter _ = Inl TypeError"

text \<open>\<^verbatim>\<open>digest.replace(":", "_") + ext\<close>: the local file name of a blob. Only a string
  has \<^verbatim>\<open>replace\<close>.\<close>

fun digest_file :: "json \<Rightarrow> string \<Rightarrow> error + string" where
  "digest_file (JStr d) ext = Inr (str_replace '':'' ''_'' d @ ext)"
| "digest_file _ ext = Inl AttributeError"


section \<open>The file system\<close>

text \<open>
  The file system is the working directory of the process and the nodes that exist, each
  under its location: the names that lead to it from the root. A node is a regular file
  or a directory; the root always exists. A file is a JSON document (what \<^verbatim>\<open>json.dump\<close>
  wrote and \<^verbatim>\<open>json.load\<close> reads back), bytes that are not JSON, or a tar archive: its
  members in order, each under its archive name. There are no symbolic links, and the
  process may read and write every node.
\<close>

datatype 'c node = File 'c | Dir

datatype content =
    JsonDoc json
  | Raw string
  | TarArchive "(string \<times> content node) list"

record filesystem =
  cwd :: "string list"
  nodes :: "(string list \<times> content node) list"

text \<open>The node at a location, and the file system with a node stored at a location.\<close>

definition entry :: "filesystem \<Rightarrow> string list \<Rightarrow> content node option" where
  "entry fs k = (if k = [] then Some Dir else map_of (nodes fs) k)"

definition put :: "filesystem \<Rightarrow> string list \<Rightarrow> content node \<Rightarrow> filesystem" where
  "put fs k n = fs\<lparr>nodes := AList.update k n (nodes fs)\<rparr>"

text \<open>\<^verbatim>\<open>os.path.join(a, b)\<close> on POSIX.\<close>

definition path_join :: "string \<Rightarrow> string \<Rightarrow> string" where
  "path_join a b =
     (if prefix ''/'' b then b
      else if a = [] \<or> suffix ''/'' a then a @ b
      else a @ ''/'' @ b)"

text \<open>
  How the system resolves a path: it starts at the root for an absolute path and at the
  working directory otherwise, and takes the components between the slashes one by one;
  an empty component and \<^verbatim>\<open>.\<close> stay, \<^verbatim>\<open>..\<close> goes to the parent, a name goes down.
  \<open>locate\<close> is where the whole path leads, \<open>walked\<close> the locations passed before the last
  component: the path resolves only if all of them are directories.
\<close>

definition components :: "string \<Rightarrow> string list" where
  "components p = str_split ''/'' p"

definition step :: "string list \<Rightarrow> string \<Rightarrow> string list" where
  "step k c = (if c = [] \<or> c = ''.'' then k else if c = ''..'' then butlast k else k @ [c])"

definition start :: "filesystem \<Rightarrow> string \<Rightarrow> string list" where
  "start fs p = (if prefix ''/'' p then [] else cwd fs)"

definition locate :: "filesystem \<Rightarrow> string \<Rightarrow> string list" where
  "locate fs p = foldl step (start fs p) (components p)"

definition walked :: "filesystem \<Rightarrow> string \<Rightarrow> string list list" where
  "walked fs p = map (foldl step (start fs p)) (prefixes (butlast (components p)))"

definition reachable :: "filesystem \<Rightarrow> string \<Rightarrow> bool" where
  "reachable fs p = list_all (\<lambda>k. entry fs k = Some Dir) (walked fs p)"

text \<open>What \<^verbatim>\<open>os.path.exists\<close>, \<^verbatim>\<open>os.path.isdir\<close> and \<^verbatim>\<open>open(path, "r")\<close> find at a
  path.\<close>

definition node_at :: "filesystem \<Rightarrow> string \<Rightarrow> content node option" where
  "node_at fs p =
     (if p = [] then None
      else if reachable fs p then entry fs (locate fs p)
      else None)"

text \<open>The error of the first location on the way that is not a directory.\<close>

fun blocked :: "filesystem \<Rightarrow> string \<Rightarrow> string list list \<Rightarrow> error option" where
  "blocked fs p [] = None"
| "blocked fs p (k # ks) =
     (case entry fs k of
        Some Dir \<Rightarrow> blocked fs p ks
      | Some (File c) \<Rightarrow> Some (NotADirectoryError p)
      | None \<Rightarrow> Some (FileNotFoundError p))"

text \<open>The components without the empty ones that trailing slashes leave at the end.\<close>

fun strip_empty :: "string list \<Rightarrow> string list" where
  "strip_empty [] = []"
| "strip_empty (c # cs) = (if list_all (\<lambda>x. x = []) (c # cs) then [] else c # strip_empty cs)"

text \<open>
  The exception of \<^verbatim>\<open>open(path, "w")\<close>, \<open>None\<close> when the file can be created or
  truncated: the directories on the way must exist, and the path must not name a
  directory (by a trailing slash, by ending in \<^verbatim>\<open>.\<close> or \<^verbatim>\<open>..\<close>, or because a directory
  is there).
\<close>

definition open_error :: "filesystem \<Rightarrow> string \<Rightarrow> error option" where
  "open_error fs p =
     (if p = [] then Some (FileNotFoundError p)
      else
        let cs = strip_empty (components p) in
        if cs = [] then Some (IsADirectoryError p)
        else
          (case blocked fs p (map (foldl step (start fs p)) (prefixes (butlast cs))) of
             Some e \<Rightarrow> Some e
           | None \<Rightarrow>
               if cs = components p then
                 (if last cs = ''.'' \<or> last cs = ''..'' then Some (IsADirectoryError p)
                  else if entry fs (locate fs p) = Some Dir then Some (IsADirectoryError p)
                  else None)
               else Some (IsADirectoryError p)))"

text \<open>\<^verbatim>\<open>open(path, "w")\<close> followed by writing \<open>c\<close>.\<close>

definition write_file :: "filesystem \<Rightarrow> string \<Rightarrow> content \<Rightarrow> error + filesystem" where
  "write_file fs path c =
     (case open_error fs path of
        Some e \<Rightarrow> Inl e
      | None \<Rightarrow> Inr (put fs (locate fs path) (File c)))"



section \<open>Archive assembler\<close>

text \<open>Lines 139--157: read and validate \<^verbatim>\<open>manifest.json\<close>.\<close>

definition load_manifest :: "filesystem \<Rightarrow> string \<Rightarrow> error + json" where
  "load_manifest fs output_dir =
     (let manifest_path = path_join output_dir ''manifest.json'' in
      case node_at fs manifest_path of
        None \<Rightarrow> Inl (FileNotFoundError (''Manifest file not found: '' @ manifest_path))
      | Some Dir \<Rightarrow> Inl (IsADirectoryError manifest_path)
      | Some (File (JsonDoc manifest)) \<Rightarrow>
          if \<not> truthy manifest then Inl (ValueError ''Manifest file is empty or invalid.'')
          else (case manifest of
                  JObj kvs \<Rightarrow>
                    if map_of kvs ''config'' = None \<or> map_of kvs ''layers'' = None then
                      Inl (ValueError
                        ''Manifest file is not in the expected format (missing 'config' or 'layers').'')
                    else Inr manifest
                | _ \<Rightarrow>
                    Inl (ValueError
                      ''Manifest file is not in the expected format (expected a dictionary).''))
      | Some (File _) \<Rightarrow> Inl (ValueError ''Manifest file is not valid JSON''))"

text \<open>Line 161: the list comprehension over the layers.\<close>

fun layer_file_names :: "json list \<Rightarrow> error + string list" where
  "layer_file_names [] = Inr []"
| "layer_file_names (layer # rest) =
     (case subscript layer ''digest'' of
        Inl e \<Rightarrow> Inl e
      | Inr d \<Rightarrow>
          (case digest_file d ''.tar.gz'' of
             Inl e \<Rightarrow> Inl e
           | Inr f \<Rightarrow>
               (case layer_file_names rest of
                  Inl e \<Rightarrow> Inl e
                | Inr files \<Rightarrow> Inr (f # files))))"

text \<open>Lines 160--161: the config file name and the layer file names.\<close>

definition blob_names :: "json \<Rightarrow> error + (string \<times> string list)" where
  "blob_names manifest =
     (case subscript manifest ''config'' of
        Inl e \<Rightarrow> Inl e
      | Inr config \<Rightarrow>
     (case subscript config ''digest'' of
        Inl e \<Rightarrow> Inl e
      | Inr d \<Rightarrow>
     (case digest_file d ''.json'' of
        Inl e \<Rightarrow> Inl e
      | Inr config_digest \<Rightarrow>
     (case subscript manifest ''layers'' of
        Inl e \<Rightarrow> Inl e
      | Inr ls \<Rightarrow>
     (case json_iter ls of
        Inl e \<Rightarrow> Inl e
      | Inr layers \<Rightarrow>
     (case layer_file_names layers of
        Inl e \<Rightarrow> Inl e
      | Inr layer_files \<Rightarrow> Inr (config_digest, layer_files)))))))"

text \<open>Lines 169--172: the first layer file that does not exist raises.\<close>

fun check_layers :: "filesystem \<Rightarrow> string \<Rightarrow> string list \<Rightarrow> error option" where
  "check_layers fs output_dir [] = None"
| "check_layers fs output_dir (layer_file # rest) =
     (let layer_path = path_join output_dir layer_file in
      if node_at fs layer_path = None then
        Some (FileNotFoundError (''Layer file not found: '' @ layer_path))
      else check_layers fs output_dir rest)"

text \<open>Lines 175--181: the repo tag, from the pull link as typed.\<close>

definition repo_tag_of :: "string \<Rightarrow> error + string" where
  "repo_tag_of pull_link =
     (if str_contains ''@sha256:'' pull_link then
        (case unpack2 (str_split ''@sha256:'' pull_link) of
           Inl e \<Rightarrow> Inl e
         | Inr (repo, digest) \<Rightarrow> Inr (repo @ '':sha256-'' @ digest))
      else Inr pull_link)"

text \<open>Lines 184--190.\<close>

definition docker_manifest :: "string \<Rightarrow> string \<Rightarrow> string list \<Rightarrow> json" where
  "docker_manifest config_digest repo_tag layer_files =
     JArr [JObj [(''Config'', JStr config_digest),
                 (''RepoTags'', JArr [JStr repo_tag]),
                 (''Layers'', JArr (map JStr layer_files))]]"

text \<open>
  Lines 139--190, all that \<^verbatim>\<open>create_image_tar\<close> does before it writes anything: the
  config file name, the layer file names and the loader manifest, or the exception
  raised.
\<close>

definition prepare_image_tar ::
  "filesystem \<Rightarrow> string \<Rightarrow> string \<Rightarrow> error + (string \<times> string list \<times> json)" where
  "prepare_image_tar fs output_dir pull_link =
     (case load_manifest fs output_dir of
        Inl e \<Rightarrow> Inl e
      | Inr manifest \<Rightarrow>
     (case blob_names manifest of
        Inl e \<Rightarrow> Inl e
      | Inr (config_digest, layer_files) \<Rightarrow>
          let config_path = path_join output_dir config_digest in
          if node_at fs config_path = None then
            Inl (FileNotFoundError (''Config file not found: '' @ config_path))
          else
     (case check_layers fs output_dir layer_files of
        Some e \<Rightarrow> Inl e
      | None \<Rightarrow>
     (case repo_tag_of pull_link of
        Inl e \<Rightarrow> Inl e
      | Inr repo_tag \<Rightarrow>
          Inr (config_digest, layer_files, docker_manifest config_digest repo_tag layer_files)))))"

text \<open>
  The name tarfile gives a member: leading slashes of \<open>arcname\<close> are removed, and a
  directory is listed without trailing slashes.
\<close>

definition lstrip_slash :: "string \<Rightarrow> string" where
  "lstrip_slash s = dropWhile (\<lambda>c. c = CHR ''/'') s"

definition rstrip_slash :: "string \<Rightarrow> string" where
  "rstrip_slash s = rev (dropWhile (\<lambda>c. c = CHR ''/'') (rev s))"

definition tar_member :: "string \<Rightarrow> content node \<Rightarrow> string \<times> content node" where
  "tar_member arcname n =
     (case n of
        File c \<Rightarrow> (lstrip_slash arcname, File c)
      | Dir \<Rightarrow> (rstrip_slash (lstrip_slash arcname), Dir))"

text \<open>
  What \<^verbatim>\<open>tar.add\<close> finds below the directory at location \<open>k\<close>, each node with its names
  relative to \<open>k\<close>: tarfile lists a directory in sorted order and descends into a
  subdirectory right after adding it, which is the lexicographic order of the relative
  names. The archive being written is left out.
\<close>

definition below ::
  "filesystem \<Rightarrow> string list \<Rightarrow> string list \<Rightarrow> (string list \<times> content node) list" where
  "below fs tar_loc k =
     sort_key fst
       (map (\<lambda>(q, n). (drop (length k) q, n))
          (remdups
             (filter
                (\<lambda>(q, n). strict_prefix k q \<and> q \<noteq> tar_loc \<and> entry fs q = Some n \<and>
                   list_all (\<lambda>r. entry fs r = Some Dir)
                     (filter (strict_prefix k) (butlast (prefixes q))))
                (nodes fs))))"

text \<open>
  \<^verbatim>\<open>tar.add(name, arcname=...)\<close>: a regular file at \<open>name\<close> becomes the next member; a
  directory becomes a member followed by everything below it, each under \<open>arcname\<close>
  joined with its relative names. tarfile skips \<open>name\<close> when its absolute path is that of
  the archive being written (at location \<open>tar_loc\<close>), and raises when nothing is at
  \<open>name\<close>.
\<close>

definition tar_add ::
  "filesystem \<Rightarrow> string list \<Rightarrow> (string \<times> content node) list \<Rightarrow> string \<Rightarrow> string
    \<Rightarrow> error + (string \<times> content node) list" where
  "tar_add fs tar_loc members name arcname =
     (if locate fs name = tar_loc then Inr members
      else case node_at fs name of
        None \<Rightarrow> Inl (FileNotFoundError name)
      | Some (File c) \<Rightarrow> Inr (members @ [tar_member arcname (File c)])
      | Some Dir \<Rightarrow>
          Inr (members @ tar_member arcname Dir #
                 map (\<lambda>(r, n). tar_member (foldl path_join arcname r) n)
                   (below fs tar_loc (locate fs name))))"

text \<open>Lines 206--208.\<close>

fun tar_add_layers ::
  "filesystem \<Rightarrow> string list \<Rightarrow> string \<Rightarrow> (string \<times> content node) list \<Rightarrow> string list
    \<Rightarrow> error option \<times> (string \<times> content node) list" where
  "tar_add_layers fs tar_loc output_dir members [] = (None, members)"
| "tar_add_layers fs tar_loc output_dir members (layer_file # rest) =
     (case tar_add fs tar_loc members (path_join output_dir layer_file) layer_file of
        Inl e \<Rightarrow> (Some e, members)
      | Inr members' \<Rightarrow> tar_add_layers fs tar_loc output_dir members' rest)"

text \<open>\<^verbatim>\<open>tarfile.open(tar_path, "w")\<close> refuses an empty name and otherwise opens the file
  for writing, which creates or truncates it at once.\<close>

definition tar_open :: "filesystem \<Rightarrow> string \<Rightarrow> error + filesystem" where
  "tar_open fs tar_path =
     (if tar_path = [] then Inl (ValueError ''nothing to open'')
      else write_file fs tar_path (TarArchive []))"

text \<open>
  Lines 198--208: the archive is opened, the three kinds of member are added, and leaving
  the \<^verbatim>\<open>with\<close> block closes the archive with the members added so far.
\<close>

definition write_tar ::
  "filesystem \<Rightarrow> string \<Rightarrow> string \<Rightarrow> string \<Rightarrow> string list \<Rightarrow> error option \<times> filesystem" where
  "write_tar fs output_dir tar_path config_digest layer_files =
     (case tar_open fs tar_path of
        Inl e \<Rightarrow> (Some e, fs)
      | Inr fs1 \<Rightarrow>
          let tar_loc = locate fs tar_path in
          (case tar_add fs1 tar_loc [] (path_join output_dir ''manifest.json'') ''manifest.json'' of
             Inl e \<Rightarrow> (Some e, fs1)
           | Inr m1 \<Rightarrow>
               (case tar_add fs1 tar_loc m1 (path_join output_dir config_digest) config_digest of
                  Inl e \<Rightarrow> (Some e, put fs1 tar_loc (File (TarArchive m1)))
                | Inr m2 \<Rightarrow>
                    (case tar_add_layers fs1 tar_loc output_dir m2 layer_files of
                       (r, m3) \<Rightarrow> (r, put fs1 tar_loc (File (TarArchive m3)))))))"

text \<open>
  \<^verbatim>\<open>create_image_tar(output_dir, tar_path, pull_link)\<close>: the exception raised, if any,
  and the file system it leaves. Lines 193--195 rewrite \<^verbatim>\<open>manifest.json\<close> before the
  archive is opened.
\<close>

definition create_image_tar ::
  "filesystem \<Rightarrow> string \<Rightarrow> string \<Rightarrow> string \<Rightarrow> error option \<times> filesystem" where
  "create_image_tar fs output_dir tar_path pull_link =
     (case prepare_image_tar fs output_dir pull_link of
        Inl e \<Rightarrow> (Some e, fs)
      | Inr (config_digest, layer_files, loader_manifest) \<Rightarrow>
          (case write_file fs (path_join output_dir ''manifest.json'') (JsonDoc loader_manifest) of
             Inl e \<Rightarrow> (Some e, fs)
           | Inr fs1 \<Rightarrow> write_tar fs1 output_dir tar_path config_digest layer_files))"


section \<open>Registry client\<close>

text \<open>
  The registry is a parameter: a function from the request \<^verbatim>\<open>requests.get\<close> sends to the
  response it receives, \<open>None\<close> when \<^verbatim>\<open>requests.get\<close> itself raises. A response body is
  received whole. The state threaded through the client is the file system, the
  requests sent so far and the blob paths \<^verbatim>\<open>download_blob\<close> has saved and returned so
  far, both oldest first.
\<close>

record request =
  url :: string
  headers :: "(string \<times> string) list"
  auth :: "(string \<times> string) option"
  verify :: bool
  stream :: bool



record state =
  files :: filesystem
  requests :: "request list"
  saved :: "string list"














section \<open>The command line\<close>




section \<open>File systems that differ by written files\<close>

text \<open>
  \<open>file_writes fs ns fs'\<close>: \<open>fs'\<close> is \<open>fs\<close> after regular files have been written at
  the paths \<open>ns\<close> and nowhere else. The working directory and the directories are the
  same, every location other than those of \<open>ns\<close> holds what it held, and each path of
  \<open>ns\<close> holds a regular file. The proofs about \<^verbatim>\<open>pull_image\<close> use this relation to pass
  from one download to the next.
\<close>

definition file_writes :: "filesystem \<Rightarrow> string list \<Rightarrow> filesystem \<Rightarrow> bool" where
  "file_writes fs ns fs' \<longleftrightarrow>
     cwd fs' = cwd fs \<and>
     (\<forall>k. (entry fs' k = Some Dir) = (entry fs k = Some Dir)) \<and>
     (\<forall>k. k \<notin> locate fs ` set ns \<longrightarrow> entry fs' k = entry fs k) \<and>
     (\<forall>x\<in>set ns. \<exists>b. node_at fs' x = Some (File b))"

section \<open>Facts about the string operations\<close>

lemma split_from_nonempty: "split_from sep cur s \<noteq> []"
  by (induction sep cur s rule: split_from.induct) auto

lemma str_join_Cons: "xs \<noteq> [] \<Longrightarrow> str_join sep (x # xs) = x @ sep @ str_join sep xs"
  by (cases xs) auto

lemma prefix_drop_rest: "prefix sep (c # cs) \<Longrightarrow> sep \<noteq> [] \<Longrightarrow> sep @ drop (length sep - Suc 0) cs = c # cs"
  by (cases sep) (auto simp: prefix_def)

lemma join_split_from: "sep \<noteq> [] \<Longrightarrow> str_join sep (split_from sep cur s) = cur @ s"
proof (induction sep cur s rule: split_from.induct)
  case (1 sep cur)
  then show ?case by simp
next
  case (2 sep cur c cs)
  show ?case
  proof (cases "prefix sep (c # cs)")
    case True
    with 2 have "str_join sep (split_from sep [] (drop (length sep - 1) cs)) = drop (length sep - 1) cs"
      by simp
    with True 2(3) show ?thesis
      by (simp add: str_join_Cons split_from_nonempty prefix_drop_rest)
  next
    case False
    with 2 show ?thesis by simp
  qed
qed

lemma split_from_none: "\<not> str_contains sep s \<Longrightarrow> split_from sep cur s = [cur @ s]"
  by (induction s arbitrary: cur) auto

lemma str_contains_char: "str_contains [c] s \<longleftrightarrow> c \<in> set s"
  by (induction s) auto

lemma str_contains_append_left: "str_contains sub t \<Longrightarrow> str_contains sub (a @ t)"
  by (induction a) auto

lemma split_from_char_single:
  "count_list s c = 1 \<Longrightarrow>
     \<exists>a b. split_from [c] cur s = [cur @ a, b] \<and> s = a @ [c] @ b \<and> c \<notin> set a \<and> c \<notin> set b"
proof (induction s arbitrary: cur)
  case Nil
  then show ?case by simp
next
  case (Cons x s)
  show ?case
  proof (cases "x = c")
    case True
    with Cons.prems have "count_list s c = 0" by simp
    then have "c \<notin> set s" by (simp add: count_list_0_iff)
    then have "split_from [c] [] s = [s]"
      by (simp add: split_from_none str_contains_char)
    with True \<open>c \<notin> set s\<close> show ?thesis by simp 
  next
    case False
    with Cons.prems have "count_list s c = 1" by simp
    from Cons.IH[OF this, of "cur @ [x]"] obtain a b where
      "split_from [c] (cur @ [x]) s = [cur @ [x] @ a, b]" "s = a @ [c] @ b" "c \<notin> set a" "c \<notin> set b"
      by auto
    with False show ?thesis
      by (intro exI[of _ "x # a"] exI[of _ b]) simp
  qed
qed

lemma join_parts3:
  "3 \<le> length parts \<Longrightarrow>
     parts ! 0 @ ''/'' @ parts ! 1 @ ''/'' @ image_and_ref_of parts = str_join ''/'' parts"
proof -
  assume "3 \<le> length parts"
  then obtain h p r rs where "parts = h # p # r # rs"
    by (cases parts; cases "tl parts"; cases "tl (tl parts)") auto
  then show ?thesis by (simp add: image_and_ref_of_def)
qed

lemma pull_link_decomp:
  assumes "3 \<le> length (str_split ''/'' pl)"
  shows "str_split ''/'' pl ! 0 @ ''/'' @ str_split ''/'' pl ! 1 @ ''/'' @ image_and_ref_of (str_split ''/'' pl) = pl"
  using join_parts3[OF assms] by (simp add: str_split_def join_split_from)

section \<open>Properties of the reference parser\<close>

text \<open>
  Claim C1. A pull string without \<open>://\<close> and without \<open>@sha256:\<close>, with at least three
  \<open>/\<close>-separated segments and exactly one \<open>:\<close> in the tail after host and project, is
  parsed into (host, project, image, tag), and host + "/" + project + "/" + image + ":" + tag
  is the pull string again.
\<close>

theorem parse_rejoin_roundtrip:
  assumes "\<not> str_contains ''://'' pull_link"
    and "3 \<le> length (str_split ''/'' pull_link)"
    and "count_list (image_and_ref_of (str_split ''/'' pull_link)) CHR '':'' = 1"
    and "\<not> str_contains ''@sha256:'' pull_link"
  shows "\<exists>host project image tag.
           parse_docker_pull_link pull_link = Inr (host, project, image, tag) \<and>
           host @ ''/'' @ project @ ''/'' @ image @ '':'' @ tag = pull_link"
proof -
  let ?parts = "str_split ''/'' pull_link"
  let ?tail = "image_and_ref_of ?parts"
  have dec: "?parts ! 0 @ ''/'' @ ?parts ! 1 @ ''/'' @ ?tail = pull_link"
    by (rule pull_link_decomp[OF assms(2)])
  have "\<not> str_contains ''@sha256:'' ?tail"
  proof
    assume "str_contains ''@sha256:'' ?tail"
    then have "str_contains ''@sha256:'' (?parts ! 0 @ ''/'' @ ?parts ! 1 @ ''/'' @ ?tail)"
      by (intro str_contains_append_left)
    with dec assms(4) show False by simp
  qed
  moreover from split_from_char_single[OF assms(3), of "[]"] obtain a b where
    ab: "str_split '':'' ?tail = [a, b]" "?tail = a @ '':'' @ b"
    by (auto simp: str_split_def)
  moreover have "str_contains '':'' ?tail"
    using ab(2) by (simp add: str_contains_char)
  ultimately have "parse_docker_pull_link pull_link = Inr (?parts ! 0, ?parts ! 1, a, b)"
    using assms(1,2) by (simp add: parse_docker_pull_link_def Let_def unpack2_def)
  moreover have "?parts ! 0 @ ''/'' @ ?parts ! 1 @ ''/'' @ a @ '':'' @ b = pull_link"
    using dec ab(2) by simp
  ultimately show ?thesis by blast
qed

theorem parse_rejoin_roundtrip_witness:
  "\<not> str_contains ''://'' ''harbor.example.com/myproject/nginx:latest'' \<and>
   3 \<le> length (str_split ''/'' ''harbor.example.com/myproject/nginx:latest'') \<and>
   count_list (image_and_ref_of (str_split ''/'' ''harbor.example.com/myproject/nginx:latest'')) CHR '':'' = 1 \<and>
   \<not> str_contains ''@sha256:'' ''harbor.example.com/myproject/nginx:latest'' \<and>
   (\<exists>host project image tag.
      parse_docker_pull_link ''harbor.example.com/myproject/nginx:latest'' = Inr (host, project, image, tag) \<and>
      host @ ''/'' @ project @ ''/'' @ image @ '':'' @ tag = ''harbor.example.com/myproject/nginx:latest'')"
proof -
  have h1: "\<not> str_contains ''://'' ''harbor.example.com/myproject/nginx:latest''" by simp
  have h2: "3 \<le> length (str_split ''/'' ''harbor.example.com/myproject/nginx:latest'')"
    by (simp add: str_split_def)
  have h3: "count_list (image_and_ref_of (str_split ''/'' ''harbor.example.com/myproject/nginx:latest'')) CHR '':'' = 1"
    by (simp add: str_split_def image_and_ref_of_def)
  have h4: "\<not> str_contains ''@sha256:'' ''harbor.example.com/myproject/nginx:latest''" by simp
  from parse_rejoin_roundtrip[OF h1 h2 h3 h4] h1 h2 h3 h4 show ?thesis by blast
qed

text \<open>
  Claim C3, as amended. When the tail contains no \<open>@sha256:\<close> and exactly one \<open>:\<close>, the
  parser returns without an error, the image is the text before that colon and the
  reference the text after it.
\<close>

theorem parse_tag_single_colon:
  assumes "\<not> str_contains ''://'' pull_link"
    and "3 \<le> length (str_split ''/'' pull_link)"
    and "\<not> str_contains ''@sha256:'' (image_and_ref_of (str_split ''/'' pull_link))"
    and "count_list (image_and_ref_of (str_split ''/'' pull_link)) CHR '':'' = 1"
  shows "\<exists>image ref.
           parse_docker_pull_link pull_link =
             Inr (str_split ''/'' pull_link ! 0, str_split ''/'' pull_link ! 1, image, ref) \<and>
           image_and_ref_of (str_split ''/'' pull_link) = image @ '':'' @ ref \<and>
           CHR '':'' \<notin> set image \<and> CHR '':'' \<notin> set ref"
proof -
  let ?tail = "image_and_ref_of (str_split ''/'' pull_link)"
  from split_from_char_single[OF assms(4), of "[]"] obtain a b where
    ab: "str_split '':'' ?tail = [a, b]" "?tail = a @ '':'' @ b"
        "CHR '':'' \<notin> set a" "CHR '':'' \<notin> set b"
    by (auto simp: str_split_def)
  have "str_contains '':'' ?tail"
    using ab(2) by (simp add: str_contains_char)
  with assms(1,2,3) ab(1)
  have "parse_docker_pull_link pull_link =
          Inr (str_split ''/'' pull_link ! 0, str_split ''/'' pull_link ! 1, a, b)"
    by (simp add: parse_docker_pull_link_def Let_def unpack2_def)
  with ab show ?thesis by blast
qed

text \<open>
  Claim C3 as stated fails when the tail has a second colon: \<^verbatim>\<open>split(":")\<close> then yields
  three pieces, and unpacking them into two names raises ValueError instead of returning
  the reference \<open>a:b\<close>.
\<close>

theorem parse_first_colon_counterexample:
  "\<not> str_contains ''@sha256:'' (image_and_ref_of (str_split ''/'' ''h/p/i:a:b'')) \<and>
   str_contains '':'' (image_and_ref_of (str_split ''/'' ''h/p/i:a:b'')) \<and>
   image_and_ref_of (str_split ''/'' ''h/p/i:a:b'') = ''i:a:b'' \<and>
   parse_docker_pull_link ''h/p/i:a:b'' \<noteq> Inr (''h'', ''p'', ''i'', ''a:b'') \<and>
   parse_docker_pull_link ''h/p/i:a:b'' = Inl (ValueError ''too many values to unpack (expected 2)'')"
  by (simp add: parse_docker_pull_link_def str_split_def unpack2_def image_and_ref_of_def)

text \<open>The witness of the amended claim C3, at the docstring's first example.\<close>

theorem parse_tag_single_colon_witness:
  "\<exists>image ref.
     parse_docker_pull_link ''harbor.example.com/myproject/nginx:latest'' =
       Inr (str_split ''/'' ''harbor.example.com/myproject/nginx:latest'' ! 0,
            str_split ''/'' ''harbor.example.com/myproject/nginx:latest'' ! 1, image, ref) \<and>
     image_and_ref_of (str_split ''/'' ''harbor.example.com/myproject/nginx:latest'') =
       image @ '':'' @ ref \<and>
     CHR '':'' \<notin> set image \<and> CHR '':'' \<notin> set ref"
  by (rule parse_tag_single_colon) (simp_all add: str_split_def image_and_ref_of_def)

section \<open>The first occurrence of a separator\<close>

lemma prefix_within:
  "length sep \<le> length u \<Longrightarrow> prefix sep (u @ v) \<Longrightarrow> prefix sep u"
  by (metis prefix_length_prefix prefix_prefix prefixI)

lemma split_from_first:
  "sep \<noteq> [] \<Longrightarrow> \<not> str_contains sep (a @ butlast sep) \<Longrightarrow>
     split_from sep cur (a @ sep @ b) = (cur @ a) # split_from sep [] b"
proof (induction a arbitrary: cur)
  case Nil
  then obtain c cs where "sep = c # cs" by (cases sep) auto
  then show ?case by simp
next
  case (Cons x a)
  have np: "\<not> prefix sep (x # a @ butlast sep)" and nc: "\<not> str_contains sep (a @ butlast sep)"
    using Cons.prems(2) by auto
  have "\<not> prefix sep (x # a @ sep @ b)"
  proof
    assume pre: "prefix sep (x # a @ sep @ b)"
    have "x # a @ sep @ b = (x # a @ butlast sep) @ ([last sep] @ b)"
      using Cons.prems(1) by simp
    with pre have "prefix sep ((x # a @ butlast sep) @ ([last sep] @ b))"
      by simp
    moreover have "length sep \<le> length (x # a @ butlast sep)" by simp
    ultimately have "prefix sep (x # a @ butlast sep)" by (rule prefix_within[rotated])
    with np show False ..
  qed
  with Cons.IH[OF Cons.prems(1) nc, of "cur @ [x]"] show ?case by simp
qed

lemma prefix_no_overlap:
  assumes pre: "prefix sep (u @ butlast sep)" and ne: "sep \<noteq> []"
    and hd: "hd sep \<notin> set (tl sep)"
  shows "prefix sep u"
proof (cases "length sep \<le> length u")
  case True
  then show ?thesis using pre by (rule prefix_within)
next
  case False
  then have short: "length u < length sep" by simp
  from pre obtain zs where eq: "u @ butlast sep = sep @ zs" by (auto elim: prefixE)
  have "u \<noteq> []"
  proof
    assume "u = []"
    with eq have "butlast sep = sep @ zs" by simp
    then have "length sep - 1 = length sep + length zs"
      by (metis length_butlast length_append)
    with ne show False by (cases sep) simp_all
  qed
  then have pos: "0 < length u" by simp
  from pos short have "1 < length sep" by arith
  then have bl: "0 < length (butlast sep)" by (simp only: length_butlast)
  have "(u @ butlast sep) ! length u = butlast sep ! 0" by (simp add: nth_append)
  also have "\<dots> = sep ! 0" using bl by (simp add: nth_butlast)
  also have "\<dots> = hd sep" using ne by (simp add: hd_conv_nth)
  finally have l: "(u @ butlast sep) ! length u = hd sep" .
  have "(sep @ zs) ! length u = sep ! length u" using short by (simp add: nth_append)
  also have "\<dots> \<in> set (tl sep)"
  proof -
    from pos obtain n where n: "length u = Suc n" by (cases "length u") auto
    from ne obtain c cs where sep: "sep = c # cs" by (cases sep) auto
    from short n sep have "n < length cs" by simp
    then have "cs ! n \<in> set cs" by (rule nth_mem)
    with n sep show ?thesis by simp
  qed
  finally have "(sep @ zs) ! length u \<in> set (tl sep)" .
  with l eq hd show ?thesis by simp
qed

lemma str_contains_length: "str_contains sep s \<Longrightarrow> length sep \<le> length s"
  by (induction s) (auto dest: prefix_length_le)

lemma str_contains_no_overlap:
  "sep \<noteq> [] \<Longrightarrow> hd sep \<notin> set (tl sep) \<Longrightarrow> str_contains sep (a @ butlast sep) \<Longrightarrow>
     str_contains sep a"
proof (induction a)
  case Nil
  have "\<not> str_contains sep (butlast sep)"
  proof
    assume "str_contains sep (butlast sep)"
    then have "length sep \<le> length (butlast sep)" by (rule str_contains_length)
    then have "length sep \<le> length sep - 1" by (simp only: length_butlast)
    with Nil(1) show False by (cases sep) simp_all
  qed
  with Nil show ?case by simp
next
  case (Cons x a)
  show ?case
  proof (cases "prefix sep (x # a @ butlast sep)")
    case True
    then have "prefix sep (x # a)"
      using prefix_no_overlap[of sep "x # a"] Cons.prems by simp
    then show ?thesis by simp
  next
    case False
    with Cons show ?thesis by auto
  qed
qed

lemma split_from_char_append:
  "c \<notin> set x \<Longrightarrow>
     split_from [c] cur (a @ x) = butlast (split_from [c] cur a) @ [last (split_from [c] cur a) @ x]"
proof (induction a arbitrary: cur)
  case Nil
  then show ?case by (simp add: split_from_none str_contains_char)
next
  case (Cons y a)
  then show ?case by (auto simp: split_from_nonempty)
qed

lemma str_join_last_append:
  "xs \<noteq> [] \<Longrightarrow> str_join sep (butlast xs @ [last xs @ x]) = str_join sep xs @ x"
  by (induction sep xs rule: str_join.induct) auto

lemma prefix_str_contains: "prefix sep s \<Longrightarrow> str_contains sep s"
  by (cases s) auto

lemma str_contains_mid: "str_contains sep (a @ sep @ b)"
  by (rule str_contains_append_left) (simp add: prefix_str_contains)

lemma split_sha_marker:
  assumes "\<not> str_contains ''@sha256:'' a" and "\<not> str_contains ''@sha256:'' b"
  shows "str_split ''@sha256:'' (a @ ''@sha256:'' @ b) = [a, b]"
proof -
  have "\<not> str_contains ''@sha256:'' (a @ butlast ''@sha256:'')"
    using assms(1) str_contains_no_overlap[of "''@sha256:''" a] by auto
  then have "split_from ''@sha256:'' [] (a @ ''@sha256:'' @ b) = ([] @ a) # split_from ''@sha256:'' [] b"
    by (intro split_from_first) simp_all
  with assms(2) show ?thesis by (simp add: str_split_def split_from_none)
qed

lemma tail_append:
  assumes "CHR ''/'' \<notin> set x" and "3 \<le> length (str_split ''/'' (a @ x))"
  shows "3 \<le> length (str_split ''/'' a)"
    and "str_split ''/'' (a @ x) ! 0 = str_split ''/'' a ! 0"
    and "str_split ''/'' (a @ x) ! 1 = str_split ''/'' a ! 1"
    and "image_and_ref_of (str_split ''/'' (a @ x)) = image_and_ref_of (str_split ''/'' a) @ x"
proof -
  let ?P = "str_split ''/'' a"
  have eq: "str_split ''/'' (a @ x) = butlast ?P @ [last ?P @ x]"
    using assms(1) by (simp add: str_split_def split_from_char_append)
  have ne: "?P \<noteq> []" by (simp add: str_split_def split_from_nonempty)
  from eq have "length (str_split ''/'' (a @ x)) = length ?P"
    using ne by (simp add: Suc_leI)
  with assms(2) show len: "3 \<le> length ?P" by simp
  then obtain h p r rs where P: "?P = h # p # r # rs"
    by (cases ?P; cases "tl ?P"; cases "tl (tl ?P)") auto
  show "str_split ''/'' (a @ x) ! 0 = ?P ! 0" unfolding eq P by simp
  show "str_split ''/'' (a @ x) ! 1 = ?P ! 1" unfolding eq P by simp
  have "drop 2 (butlast ?P @ [last ?P @ x]) = butlast (r # rs) @ [last (r # rs) @ x]"
    unfolding P by simp
  then have "image_and_ref_of (str_split ''/'' (a @ x)) = str_join ''/'' (r # rs) @ x"
    unfolding eq image_and_ref_of_def by (simp only: str_join_last_append list.distinct not_False_eq_True)
  then show "image_and_ref_of (str_split ''/'' (a @ x)) = image_and_ref_of ?P @ x"
    unfolding image_and_ref_of_def P by simp
qed

lemma parse_digest_core:
  assumes "\<not> str_contains ''://'' pl"
    and "3 \<le> length (str_split ''/'' pl)"
    and "str_contains ''@sha256:'' (image_and_ref_of (str_split ''/'' pl))"
    and "str_split ''@sha256:'' (image_and_ref_of (str_split ''/'' pl)) = [i, r]"
  shows "parse_docker_pull_link pl =
           Inr (str_split ''/'' pl ! 0, str_split ''/'' pl ! 1, i, ''sha256:'' @ r)"
  using assms by (simp add: parse_docker_pull_link_def Let_def unpack2_def)

lemma repo_tag_digest_core:
  assumes "str_contains ''@sha256:'' pl" and "str_split ''@sha256:'' pl = [repo, digest]"
  shows "repo_tag_of pl = Inr (repo @ '':sha256-'' @ digest)"
  using assms by (simp add: repo_tag_of_def unpack2_def)

section \<open>Digest references\<close>

text \<open>
  Claim C2, as amended. For a pull string \<open>before@sha256:hex\<close> in which \<open>@sha256:\<close>
  occurs exactly once (neither \<open>before\<close> nor \<open>hex\<close> contains it) and \<open>hex\<close> has no
  \<open>/\<close> (as a string of hex digits has not), with at least three segments and no \<open>://\<close>:
  the parser returns the reference \<open>sha256:hex\<close>, host, project and image re-join to
  \<open>before\<close>, and the repo tag derived by the assembler is \<open>before:sha256-hex\<close>.
\<close>

theorem parse_digest_and_repo_tag:
  assumes "\<not> str_contains ''://'' (before @ ''@sha256:'' @ hex)"
    and "3 \<le> length (str_split ''/'' (before @ ''@sha256:'' @ hex))"
    and "\<not> str_contains ''@sha256:'' before"
    and "\<not> str_contains ''@sha256:'' hex"
    and "CHR ''/'' \<notin> set hex"
  shows "(\<exists>host project image.
            parse_docker_pull_link (before @ ''@sha256:'' @ hex) =
              Inr (host, project, image, ''sha256:'' @ hex) \<and>
            host @ ''/'' @ project @ ''/'' @ image = before) \<and>
         repo_tag_of (before @ ''@sha256:'' @ hex) = Inr (before @ '':sha256-'' @ hex)"
proof -
  let ?pl = "before @ ''@sha256:'' @ hex"
  let ?P = "str_split ''/'' before"
  let ?tb = "image_and_ref_of ?P"
  have nosl: "CHR ''/'' \<notin> set (''@sha256:'' @ hex)" using assms(5) by simp
  note ta = tail_append[OF nosl assms(2)]
  have dec: "?P ! 0 @ ''/'' @ ?P ! 1 @ ''/'' @ ?tb = before"
    by (rule pull_link_decomp[OF ta(1)])
  have ntb: "\<not> str_contains ''@sha256:'' ?tb"
  proof
    assume "str_contains ''@sha256:'' ?tb"
    then have "str_contains ''@sha256:'' (?P ! 0 @ ''/'' @ ?P ! 1 @ ''/'' @ ?tb)"
      by (intro str_contains_append_left)
    with dec assms(3) show False by simp
  qed
  have tail: "image_and_ref_of (str_split ''/'' ?pl) = ?tb @ ''@sha256:'' @ hex"
    using ta(4) by (simp only: append_assoc)
  have c: "str_contains ''@sha256:'' (?tb @ ''@sha256:'' @ hex)" by (rule str_contains_mid)
  have sp: "str_split ''@sha256:'' (?tb @ ''@sha256:'' @ hex) = [?tb, hex]"
    by (rule split_sha_marker[OF ntb assms(4)])
  have c': "str_contains ''@sha256:'' (image_and_ref_of (str_split ''/'' ?pl))"
    using c by (simp only: tail)
  have sp': "str_split ''@sha256:'' (image_and_ref_of (str_split ''/'' ?pl)) = [?tb, hex]"
    using sp by (simp only: tail)
  have "parse_docker_pull_link ?pl =
          Inr (str_split ''/'' ?pl ! 0, str_split ''/'' ?pl ! 1, ?tb, ''sha256:'' @ hex)"
    by (rule parse_digest_core[OF assms(1,2) c' sp'])
  then have "parse_docker_pull_link ?pl = Inr (?P ! 0, ?P ! 1, ?tb, ''sha256:'' @ hex)"
    by (simp only: ta(2,3))
  with dec have parse: "\<exists>host project image.
            parse_docker_pull_link ?pl = Inr (host, project, image, ''sha256:'' @ hex) \<and>
            host @ ''/'' @ project @ ''/'' @ image = before"
    by blast
  have "str_contains ''@sha256:'' ?pl" by (rule str_contains_mid)
  moreover have "str_split ''@sha256:'' ?pl = [before, hex]"
    by (rule split_sha_marker[OF assms(3,4)])
  ultimately have "repo_tag_of ?pl = Inr (before @ '':sha256-'' @ hex)"
    by (rule repo_tag_digest_core)
  with parse show ?thesis by blast
qed

theorem parse_digest_and_repo_tag_witness:
  "(\<exists>host project image.
      parse_docker_pull_link (''harbor.example.com/myproject/img/name'' @ ''@sha256:'' @ ''0a1b2c'') =
        Inr (host, project, image, ''sha256:'' @ ''0a1b2c'') \<and>
      host @ ''/'' @ project @ ''/'' @ image = ''harbor.example.com/myproject/img/name'') \<and>
   repo_tag_of (''harbor.example.com/myproject/img/name'' @ ''@sha256:'' @ ''0a1b2c'') =
     Inr (''harbor.example.com/myproject/img/name'' @ '':sha256-'' @ ''0a1b2c'')"
  by (rule parse_digest_and_repo_tag) (simp_all add: str_split_def)

text \<open>
  Claim C2 as stated fails for a pull string in which \<open>@sha256:\<close> occurs twice: both
  \<^verbatim>\<open>split("@sha256:")\<close> calls yield three pieces, and unpacking them into two names raises
  ValueError in the parser and in the assembler.
\<close>

theorem parse_digest_counterexample:
  "str_contains ''@sha256:bb'' ''h/p/i@sha256:aa@sha256:bb'' \<and>
   \<not> str_contains ''://'' ''h/p/i@sha256:aa@sha256:bb'' \<and>
   3 \<le> length (str_split ''/'' ''h/p/i@sha256:aa@sha256:bb'') \<and>
   parse_docker_pull_link ''h/p/i@sha256:aa@sha256:bb'' =
     Inl (ValueError ''too many values to unpack (expected 2)'') \<and>
   repo_tag_of ''h/p/i@sha256:aa@sha256:bb'' =
     Inl (ValueError ''too many values to unpack (expected 2)'')"
  by (simp add: parse_docker_pull_link_def repo_tag_of_def str_split_def unpack2_def image_and_ref_of_def)

section \<open>Facts about the file system\<close>

lemma components_nonempty: "components p \<noteq> []"
  by (simp add: components_def str_split_def split_from_nonempty)

lemma entry_put:
  "entry (put fs k n) k' = (if k' = [] then Some Dir else if k' = k then Some n else entry fs k')"
  by (simp add: entry_def put_def update_conv')

lemma cwd_put: "cwd (put fs k n) = cwd fs"
  by (simp add: put_def)

lemma start_put: "start (put fs k n) p = start fs p"
  by (simp add: start_def cwd_put)

lemma locate_put: "locate (put fs k n) p = locate fs p"
  by (simp add: locate_def start_put)

lemma walked_put: "walked (put fs k n) p = walked fs p"
  by (simp add: walked_def start_put)

lemma entry_root: "entry fs [] = Some Dir"
  by (simp add: entry_def)

lemma isdir_put_file:
  "entry fs k \<noteq> Some Dir \<Longrightarrow> entry (put fs k (File c)) k' = Some Dir \<longleftrightarrow> entry fs k' = Some Dir"
  by (auto simp: entry_put entry_root)

lemma reachable_put_file:
  "entry fs k \<noteq> Some Dir \<Longrightarrow> reachable (put fs k (File c)) p = reachable fs p"
  by (simp add: reachable_def walked_put isdir_put_file)

lemma node_at_put_file:
  assumes "entry fs k \<noteq> Some Dir"
  shows "node_at (put fs k (File c)) p =
           (if p \<noteq> [] \<and> reachable fs p \<and> locate fs p = k then Some (File c) else node_at fs p)"
proof -
  from assms have "k \<noteq> []" by (auto simp: entry_root)
  then show ?thesis
    by (auto simp: node_at_def reachable_put_file[OF assms] locate_put entry_put entry_root)
qed


lemma blocked_None:
  "blocked fs p ks = None \<longleftrightarrow> list_all (\<lambda>k. entry fs k = Some Dir) ks"
  by (induction ks) (auto split: option.splits node.splits)

lemma strip_empty_id: "cs \<noteq> [] \<Longrightarrow> last cs \<noteq> [] \<Longrightarrow> strip_empty cs = cs"
proof (induction cs)
  case Nil
  then show ?case by simp
next
  case (Cons c cs)
  have "last (c # cs) \<in> set (c # cs)" by (rule last_in_set) simp
  with Cons.prems(2) have "\<not> list_all (\<lambda>x. x = []) (c # cs)" by (auto simp: list_all_iff)
  moreover have "strip_empty cs = cs"
  proof (cases "cs = []")
    case True
    then show ?thesis by simp
  next
    case False
    with Cons show ?thesis by simp
  qed
  ultimately show ?case by simp
qed

lemma strip_empty_eq_last: "strip_empty cs = cs \<Longrightarrow> cs \<noteq> [] \<Longrightarrow> last cs \<noteq> []"
  by (induction cs) (auto simp: list_all_iff split: if_splits)

lemma open_error_None_iff:
  "open_error fs p = None \<longleftrightarrow>
     p \<noteq> [] \<and> last (components p) \<noteq> [] \<and> last (components p) \<noteq> ''.'' \<and>
     last (components p) \<noteq> ''..'' \<and> reachable fs p \<and> entry fs (locate fs p) \<noteq> Some Dir"
proof (cases "last (components p) = []")
  case True
  then have "strip_empty (components p) \<noteq> components p"
    using strip_empty_eq_last[of "components p"] components_nonempty[of p] by auto
  with True show ?thesis
    by (auto simp: open_error_def Let_def split: option.splits)
next
  case False
  then have se: "strip_empty (components p) = components p"
    using strip_empty_id[of "components p"] components_nonempty[of p] by auto
  have b: "blocked fs p (map (foldl step (start fs p)) (prefixes (butlast (components p)))) = None
             \<longleftrightarrow> reachable fs p"
    by (simp add: blocked_None reachable_def walked_def)
  show ?thesis
  proof (cases "blocked fs p (map (foldl step (start fs p)) (prefixes (butlast (components p))))")
    case None
    with b have "reachable fs p" by simp
    with None False se show ?thesis
      by (auto simp: open_error_def Let_def components_nonempty)
  next
    case (Some e)
    with b have "\<not> reachable fs p" by simp
    with Some False se show ?thesis
      by (auto simp: open_error_def Let_def components_nonempty)
  qed
qed

lemma write_file_Inr:
  "write_file fs p c = Inr fs' \<longleftrightarrow> open_error fs p = None \<and> fs' = put fs (locate fs p) (File c)"
  by (auto simp: write_file_def split: option.splits)

lemma write_file_Inl:
  "write_file fs p c = Inl e \<longleftrightarrow> open_error fs p = Some e"
  by (auto simp: write_file_def split: option.splits)

section \<open>Facts about paths\<close>

lemma split_from_snoc_sep: "split_from [c] cur (s @ [c]) = split_from [c] cur s @ [[]]"
  by (induction s arbitrary: cur) auto

lemma components_snoc_slash: "components (s @ ''/'') = components s @ [[]]"
  by (simp add: components_def str_split_def split_from_snoc_sep)

lemma components_append_name:
  "CHR ''/'' \<notin> set x \<Longrightarrow>
     components (b @ x) = butlast (components b) @ [last (components b) @ x]"
  by (simp add: components_def str_split_def split_from_char_append)

lemma components_name: "CHR ''/'' \<notin> set x \<Longrightarrow> components x = [x]"
  by (simp add: components_def str_split_def split_from_none str_contains_char)

lemma components_empty: "components [] = [[]]"
  by (simp add: components_def str_split_def)

lemma components_path_join:
  assumes "CHR ''/'' \<notin> set x"
  shows "components (path_join od x) =
           (if od = [] then [] else if suffix ''/'' od then butlast (components od) else components od)
             @ [x]"
proof -
  from assms have np: "\<not> prefix ''/'' x" by (auto simp: prefix_def)
  show ?thesis
  proof (cases "od = []")
    case True
    with np assms show ?thesis by (simp add: path_join_def components_name)
  next
    case False
    show ?thesis
    proof (cases "suffix ''/'' od")
      case True
      then obtain s where s: "od = s @ ''/''" by (auto simp: suffix_def)
      have "components (od @ x) = butlast (components od) @ [last (components od) @ x]"
        using assms by (rule components_append_name)
      with True False np show ?thesis by (simp add: path_join_def s components_snoc_slash)
    next
      case nsl: False
      have "components ((od @ ''/'') @ x) =
              butlast (components (od @ ''/'')) @ [last (components (od @ ''/'')) @ x]"
        using assms by (rule components_append_name)
      with nsl False np show ?thesis by (simp add: path_join_def components_snoc_slash)
    qed
  qed
qed

lemma start_path_join:
  "CHR ''/'' \<notin> set x \<Longrightarrow> start fs (path_join od x) = start fs od"
  by (cases od; cases x) (auto simp: start_def path_join_def prefix_def)

lemma locate_path_join:
  assumes "CHR ''/'' \<notin> set x"
  shows "locate fs (path_join od x) = step (locate fs od) x"
proof -
  note st = start_path_join[OF assms]
  show ?thesis
  proof (cases "od = []")
    case True
    from assms have "\<not> prefix ''/'' x" by (auto simp: prefix_def)
    with True show ?thesis
      by (simp add: locate_def start_def path_join_def components_name[OF assms] components_empty
            step_def)
  next
    case False
    show ?thesis
    proof (cases "suffix ''/'' od")
      case True
      then obtain s where s: "od = s @ ''/''" by (auto simp: suffix_def)
      show ?thesis
        using True False
        by (simp add: locate_def st components_path_join[OF assms] s components_snoc_slash step_def)
    next
      case nsl: False
      then show ?thesis using False
        by (simp add: locate_def st components_path_join[OF assms])
    qed
  qed
qed




text \<open>A component that ends in one of the program's file extensions is a name.\<close>

lemma ext_name:
  assumes "suffix ext x" and "ext = ''.json'' \<or> ext = ''.tar.gz'' \<or> ext = ''.tar''"
  shows "x \<noteq> []" "x \<noteq> ''.''" "x \<noteq> ''..''"
  using assms by (auto simp: suffix_def)

lemma step_name: "x \<noteq> [] \<Longrightarrow> x \<noteq> ''.'' \<Longrightarrow> x \<noteq> ''..'' \<Longrightarrow> step k x = k @ [x]"
  by (simp add: step_def)

lemma last_components_suffix:
  assumes "suffix ext p" and "CHR ''/'' \<notin> set ext"
  shows "suffix ext (last (components p))"
proof -
  from assms(1) obtain y where "p = y @ ext" by (auto simp: suffix_def)
  with components_append_name[OF assms(2), of y] show ?thesis by (simp add: suffix_def)
qed







lemma suffix_path_join: "suffix ext b \<Longrightarrow> suffix ext (path_join od b)"
  by (auto simp: path_join_def suffix_def)

lemma open_error_existing_file:
  assumes "node_at fs p = Some (File x)" and "suffix ext p"
    and "ext = ''.json'' \<or> ext = ''.tar.gz'' \<or> ext = ''.tar''"
  shows "open_error fs p = None"
proof -
  from assms(3) have ns: "CHR ''/'' \<notin> set ext" by auto
  note nm = ext_name[OF last_components_suffix[OF assms(2) ns] assms(3)]
  from assms(1) have "p \<noteq> []" "reachable fs p" "entry fs (locate fs p) = Some (File x)"
    by (auto simp: node_at_def split: if_splits)
  with nm show ?thesis by (simp add: open_error_None_iff)
qed

section \<open>Facts about makedirs\<close>



section \<open>Facts about the archive assembler\<close>

lemma put_put: "put (put fs k a) k b = put fs k b"
  by (simp add: put_def)

lemma open_error_put_file:
  "entry fs k \<noteq> Some Dir \<Longrightarrow> open_error (put fs k (File c)) p = None \<longleftrightarrow> open_error fs p = None"
  by (auto simp: open_error_None_iff reachable_put_file locate_put entry_put entry_root)

lemma node_at_put_file_present:
  "entry fs k \<noteq> Some Dir \<Longrightarrow> node_at fs p \<noteq> None \<Longrightarrow> node_at (put fs k (File c)) p \<noteq> None"
  by (simp add: node_at_put_file)

lemma node_at_put_file_other:
  "entry fs k \<noteq> Some Dir \<Longrightarrow> locate fs p \<noteq> k \<Longrightarrow> node_at (put fs k (File c)) p = node_at fs p"
  by (simp add: node_at_put_file)

lemma node_at_reachable: "node_at fs p \<noteq> None \<Longrightarrow> p \<noteq> [] \<and> reachable fs p"
  by (auto simp: node_at_def split: if_splits)

lemma node_at_put_file_same:
  assumes "entry fs k \<noteq> Some Dir" and "node_at fs p \<noteq> None" and "locate fs p = k"
  shows "node_at (put fs k (File c)) p = Some (File c)"
  using node_at_reachable[OF assms(2)] assms(3) by (simp add: node_at_put_file[OF assms(1)])

lemma load_manifest_Inr:
  "load_manifest fs od = Inr m \<Longrightarrow>
     node_at fs (path_join od ''manifest.json'') = Some (File (JsonDoc m))"
  by (auto simp: load_manifest_def Let_def
        split: option.splits node.splits content.splits json.splits if_splits)

lemma check_layers_None:
  "check_layers fs od lfs = None \<longleftrightarrow> (\<forall>f\<in>set lfs. node_at fs (path_join od f) \<noteq> None)"
  by (induction lfs) (auto simp: Let_def)

lemma check_layers_first_missing:
  "\<forall>x\<in>set pre. node_at fs (path_join od x) \<noteq> None \<Longrightarrow> node_at fs (path_join od f) = None \<Longrightarrow>
     check_layers fs od (pre @ f # post) =
       Some (FileNotFoundError (''Layer file not found: '' @ path_join od f))"
  by (induction pre) (auto simp: Let_def)

lemma load_manifest_registry:
  assumes "node_at fs (path_join od ''manifest.json'') = Some (File (JsonDoc (JObj kvs)))"
    and "map_of kvs ''config'' = Some c" and "map_of kvs ''layers'' = Some l"
  shows "load_manifest fs od = Inr (JObj kvs)"
proof -
  from assms(2) have "kvs \<noteq> []" by auto
  with assms show ?thesis by (simp add: load_manifest_def)
qed

lemma layer_file_names_digests:
  "map (\<lambda>l. subscript l ''digest'') ls = map (\<lambda>d. Inr (JStr d)) ds \<Longrightarrow>
     layer_file_names ls = Inr (map (\<lambda>d. str_replace '':'' ''_'' d @ ''.tar.gz'') ds)"
  by (induction ls arbitrary: ds) auto

lemma blob_names_registry:
  assumes "map_of kvs ''config'' = Some (JObj ckvs)" and "map_of ckvs ''digest'' = Some (JStr cd)"
    and "map_of kvs ''layers'' = Some (JArr ls)"
    and "map (\<lambda>l. subscript l ''digest'') ls = map (\<lambda>d. Inr (JStr d)) ds"
  shows "blob_names (JObj kvs) =
           Inr (str_replace '':'' ''_'' cd @ ''.json'',
                map (\<lambda>d. str_replace '':'' ''_'' d @ ''.tar.gz'') ds)"
  using assms(1-3) layer_file_names_digests[OF assms(4)] by (simp add: blob_names_def)

lemma digest_file_suffix: "digest_file d ext = Inr f \<Longrightarrow> suffix ext f"
  by (cases d) (auto simp: suffix_def)

lemma layer_file_names_suffix:
  "layer_file_names ls = Inr lfs \<Longrightarrow> \<forall>f\<in>set lfs. suffix ''.tar.gz'' f"
  by (induction ls arbitrary: lfs) (auto split: sum.splits dest: digest_file_suffix)

lemma blob_names_suffix:
  "blob_names m = Inr (cf, lfs) \<Longrightarrow> suffix ''.json'' cf \<and> (\<forall>f\<in>set lfs. suffix ''.tar.gz'' f)"
  by (auto simp: blob_names_def split: sum.splits dest: digest_file_suffix layer_file_names_suffix)

lemma prepare_image_tar_Inr:
  assumes "prepare_image_tar fs od pl = Inr (cf, lfs, dm)"
  shows "\<exists>m rt. load_manifest fs od = Inr m \<and> blob_names m = Inr (cf, lfs) \<and>
           node_at fs (path_join od cf) \<noteq> None \<and> check_layers fs od lfs = None \<and>
           repo_tag_of pl = Inr rt \<and> dm = docker_manifest cf rt lfs"
  using assms
  by (auto simp: prepare_image_tar_def Let_def split: sum.splits prod.splits if_splits option.splits)

lemma prepare_image_tar_ok:
  assumes "load_manifest fs od = Inr m" and "blob_names m = Inr (cf, lfs)"
    and "node_at fs (path_join od cf) \<noteq> None" and "check_layers fs od lfs = None"
    and "repo_tag_of pl = Inr rt"
  shows "prepare_image_tar fs od pl = Inr (cf, lfs, docker_manifest cf rt lfs)"
  using assms by (simp add: prepare_image_tar_def Let_def)

lemma tar_add_file:
  "node_at fs name = Some (File c) \<Longrightarrow> locate fs name \<noteq> tk \<Longrightarrow>
     tar_add fs tk ms name arc = Inr (ms @ [(lstrip_slash arc, File c)])"
  by (simp add: tar_add_def tar_member_def)

lemma tar_add_present:
  "node_at fs name \<noteq> None \<Longrightarrow> \<exists>ms'. tar_add fs tk ms name arc = Inr ms'"
  by (auto simp: tar_add_def split: node.splits)

lemma tar_add_layers_present:
  "\<forall>f\<in>set lfs. node_at fs (path_join od f) \<noteq> None \<Longrightarrow>
     \<exists>ms'. tar_add_layers fs tk od ms lfs = (None, ms')"
proof (induction lfs arbitrary: ms)
  case Nil
  then show ?case by simp
next
  case (Cons f lfs)
  from Cons.prems have "node_at fs (path_join od f) \<noteq> None" by simp
  from tar_add_present[OF this, of tk ms f] obtain ms1 where
    "tar_add fs tk ms (path_join od f) f = Inr ms1" by blast
  moreover from Cons.prems have "\<forall>f\<in>set lfs. node_at fs (path_join od f) \<noteq> None" by simp
  from Cons.IH[OF this, of ms1] obtain ms' where "tar_add_layers fs tk od ms1 lfs = (None, ms')"
    by blast
  ultimately show ?case by simp
qed

lemma tar_add_layers_files:
  "\<forall>f\<in>set lfs. (\<exists>l. node_at fs (path_join od f) = Some (File l)) \<and> locate fs (path_join od f) \<noteq> tk \<Longrightarrow>
     tar_add_layers fs tk od ms lfs =
       (None, ms @ map (\<lambda>f. (lstrip_slash f, the (node_at fs (path_join od f)))) lfs)"
proof (induction lfs arbitrary: ms)
  case Nil
  then show ?case by simp
next
  case (Cons f lfs)
  from Cons.prems obtain l where l: "node_at fs (path_join od f) = Some (File l)"
    and ne: "locate fs (path_join od f) \<noteq> tk" by auto
  have a: "tar_add fs tk ms (path_join od f) f = Inr (ms @ [(lstrip_slash f, File l)])"
    using l ne by (rule tar_add_file)
  from Cons.prems have "\<forall>f\<in>set lfs. (\<exists>l. node_at fs (path_join od f) = Some (File l)) \<and>
      locate fs (path_join od f) \<noteq> tk" by simp
  from Cons.IH[OF this, of "ms @ [(lstrip_slash f, File l)]"] a l show ?case by simp
qed

lemma tar_open_Inr:
  "tar_open fs tp = Inr fs2 \<longleftrightarrow>
     open_error fs tp = None \<and> fs2 = put fs (locate fs tp) (File (TarArchive []))"
  by (auto simp: tar_open_def write_file_Inr open_error_None_iff)

lemma write_tar_fail_open: "tar_open fs tp = Inl e \<Longrightarrow> write_tar fs od tp cf lfs = (Some e, fs)"
  by (simp add: write_tar_def)

lemma write_tar_present:
  assumes "open_error fs tp = None" and "node_at fs (path_join od ''manifest.json'') \<noteq> None"
    and "node_at fs (path_join od cf) \<noteq> None" and "\<forall>f\<in>set lfs. node_at fs (path_join od f) \<noteq> None"
  shows "\<exists>ms. write_tar fs od tp cf lfs = (None, put fs (locate fs tp) (File (TarArchive ms)))"
proof -
  let ?tl = "locate fs tp"
  let ?fs2 = "put fs ?tl (File (TarArchive []))"
  from assms(1) have nd: "entry fs ?tl \<noteq> Some Dir" by (simp add: open_error_None_iff)
  have op: "tar_open fs tp = Inr ?fs2" using assms(1) by (simp add: tar_open_Inr)
  have p0: "node_at ?fs2 (path_join od ''manifest.json'') \<noteq> None"
    using nd assms(2) by (rule node_at_put_file_present)
  have p1: "node_at ?fs2 (path_join od cf) \<noteq> None"
    using nd assms(3) by (rule node_at_put_file_present)
  have p2: "\<forall>f\<in>set lfs. node_at ?fs2 (path_join od f) \<noteq> None"
  proof
    fix f assume "f \<in> set lfs"
    with assms(4) have "node_at fs (path_join od f) \<noteq> None" by blast
    with nd show "node_at ?fs2 (path_join od f) \<noteq> None" by (rule node_at_put_file_present)
  qed
  from tar_add_present[OF p0, of ?tl "[]" "''manifest.json''"] obtain m1 where
    m1: "tar_add ?fs2 ?tl [] (path_join od ''manifest.json'') ''manifest.json'' = Inr m1" by blast
  from tar_add_present[OF p1, of ?tl m1 cf] obtain m2 where
    m2: "tar_add ?fs2 ?tl m1 (path_join od cf) cf = Inr m2" by blast
  from tar_add_layers_present[OF p2, of ?tl m2] obtain m3 where
    m3: "tar_add_layers ?fs2 ?tl od m2 lfs = (None, m3)" by blast
  have "write_tar fs od tp cf lfs = (None, put fs ?tl (File (TarArchive m3)))"
    by (simp add: write_tar_def op m1 m2 m3 put_put)
  then show ?thesis by blast
qed

lemma write_tar_files:
  assumes "open_error fs tp = None"
    and "node_at fs (path_join od ''manifest.json'') = Some (File c0)"
    and "locate fs (path_join od ''manifest.json'') \<noteq> locate fs tp"
    and "node_at fs (path_join od cf) = Some (File c1)"
    and "locate fs (path_join od cf) \<noteq> locate fs tp"
    and "\<forall>f\<in>set lfs. (\<exists>l. node_at fs (path_join od f) = Some (File l)) \<and>
           locate fs (path_join od f) \<noteq> locate fs tp"
  shows "write_tar fs od tp cf lfs =
           (None, put fs (locate fs tp) (File (TarArchive
              ((''manifest.json'', File c0) # (lstrip_slash cf, File c1) #
               map (\<lambda>f. (lstrip_slash f, the (node_at fs (path_join od f)))) lfs))))"
proof -
  let ?tl = "locate fs tp"
  let ?fs2 = "put fs ?tl (File (TarArchive []))"
  from assms(1) have nd: "entry fs ?tl \<noteq> Some Dir" by (simp add: open_error_None_iff)
  have op: "tar_open fs tp = Inr ?fs2" using assms(1) by (simp add: tar_open_Inr)
  have same: "node_at ?fs2 p = node_at fs p" if "locate fs p \<noteq> ?tl" for p
    using nd that by (rule node_at_put_file_other)
  have lc: "locate ?fs2 p = locate fs p" for p by (rule locate_put)
  have a0: "tar_add ?fs2 ?tl [] (path_join od ''manifest.json'') ''manifest.json'' =
              Inr [(''manifest.json'', File c0)]"
    using tar_add_file[of ?fs2 "path_join od ''manifest.json''" c0 ?tl "[]" "''manifest.json''"]
      assms(2,3) by (simp add: same lc lstrip_slash_def)
  have a1: "tar_add ?fs2 ?tl [(''manifest.json'', File c0)] (path_join od cf) cf =
              Inr [(''manifest.json'', File c0), (lstrip_slash cf, File c1)]"
    using tar_add_file[of ?fs2 "path_join od cf" c1 ?tl "[(''manifest.json'', File c0)]" cf]
      assms(4,5) by (simp add: same lc)
  have "\<forall>f\<in>set lfs. (\<exists>l. node_at ?fs2 (path_join od f) = Some (File l)) \<and>
          locate ?fs2 (path_join od f) \<noteq> ?tl"
    using assms(6) by (simp add: same lc)
  from tar_add_layers_files[OF this]
  have a2: "tar_add_layers ?fs2 ?tl od ms lfs =
          (None, ms @ map (\<lambda>f. (lstrip_slash f, the (node_at ?fs2 (path_join od f)))) lfs)" for ms .
  have mp: "map (\<lambda>f. (lstrip_slash f, the (node_at ?fs2 (path_join od f)))) lfs =
            map (\<lambda>f. (lstrip_slash f, the (node_at fs (path_join od f)))) lfs"
    using assms(6) by (intro map_cong) (auto simp: same)
  show ?thesis
    by (simp add: write_tar_def op a0 a1 a2 mp put_put)
qed

lemma manifest_path_suffix: "suffix ''.json'' (path_join od ''manifest.json'')"
  by (rule suffix_path_join) (simp add: suffix_def)

lemma rewrite_manifest:
  assumes "node_at fs (path_join od ''manifest.json'') = Some (File x)"
  shows "write_file fs (path_join od ''manifest.json'') c =
           Inr (put fs (locate fs (path_join od ''manifest.json'')) (File c))"
    and "entry fs (locate fs (path_join od ''manifest.json'')) \<noteq> Some Dir"
proof -
  have "open_error fs (path_join od ''manifest.json'') = None"
    using assms manifest_path_suffix by (rule open_error_existing_file) simp
  then show "write_file fs (path_join od ''manifest.json'') c =
           Inr (put fs (locate fs (path_join od ''manifest.json'')) (File c))"
    by (simp add: write_file_Inr)
  from assms show "entry fs (locate fs (path_join od ''manifest.json'')) \<noteq> Some Dir"
    by (auto simp: node_at_def split: if_splits)
qed

lemma create_image_tar_early:
  "prepare_image_tar fs od pl = Inl e \<Longrightarrow> create_image_tar fs od tp pl = (Some e, fs)"
  by (simp add: create_image_tar_def)

lemma create_image_tar_reduce:
  assumes "prepare_image_tar fs od pl = Inr (cf, lfs, dm)"
  shows "create_image_tar fs od tp pl =
           write_tar (put fs (locate fs (path_join od ''manifest.json'')) (File (JsonDoc dm)))
             od tp cf lfs"
proof -
  from prepare_image_tar_Inr[OF assms] obtain m where "load_manifest fs od = Inr m" by blast
  from rewrite_manifest(1)[OF load_manifest_Inr[OF this], of "JsonDoc dm"] assms
  show ?thesis by (simp add: create_image_tar_def)
qed

lemma create_image_tar_late:
  assumes "prepare_image_tar fs od pl = Inr (cf, lfs, dm)"
  shows "(\<exists>e. tar_open (put fs (locate fs (path_join od ''manifest.json'')) (File (JsonDoc dm))) tp
                 = Inl e \<and>
              create_image_tar fs od tp pl =
                (Some e, put fs (locate fs (path_join od ''manifest.json'')) (File (JsonDoc dm)))) \<or>
         (open_error fs tp = None \<and>
          (\<exists>ms. create_image_tar fs od tp pl =
            (None, put (put fs (locate fs (path_join od ''manifest.json'')) (File (JsonDoc dm)))
                     (locate fs tp) (File (TarArchive ms)))))"
proof -
  let ?mp = "path_join od ''manifest.json''"
  let ?fs1 = "put fs (locate fs ?mp) (File (JsonDoc dm))"
  from prepare_image_tar_Inr[OF assms] obtain m rt where
    ph: "load_manifest fs od = Inr m" "blob_names m = Inr (cf, lfs)"
      "node_at fs (path_join od cf) \<noteq> None" "check_layers fs od lfs = None"
    by blast
  note mf = load_manifest_Inr[OF ph(1)]
  note nd = rewrite_manifest(2)[OF mf]
  note red = create_image_tar_reduce[OF assms, of tp]
  show ?thesis
  proof (cases "tar_open ?fs1 tp")
    case (Inl e)
    with red show ?thesis by (simp add: write_tar_fail_open)
  next
    case (Inr fs2)
    then have oe1: "open_error ?fs1 tp = None" by (simp add: tar_open_Inr)
    then have oe: "open_error fs tp = None" using nd by (simp add: open_error_put_file)
    from mf have "node_at fs ?mp \<noteq> None" by simp
    with nd have p0: "node_at ?fs1 ?mp \<noteq> None" by (rule node_at_put_file_present)
    have p1: "node_at ?fs1 (path_join od cf) \<noteq> None"
      using nd ph(3) by (rule node_at_put_file_present)
    have p2: "\<forall>f\<in>set lfs. node_at ?fs1 (path_join od f) \<noteq> None"
    proof
      fix f assume "f \<in> set lfs"
      with ph(4) have "node_at fs (path_join od f) \<noteq> None" by (simp add: check_layers_None)
      with nd show "node_at ?fs1 (path_join od f) \<noteq> None" by (rule node_at_put_file_present)
    qed
    from write_tar_present[OF oe1 p0 p1 p2] red oe show ?thesis by (simp add: locate_put)
  qed
qed

lemma create_image_tar_success:
  assumes "create_image_tar fs od tp pl = (None, fs')"
  shows "\<exists>m cf lfs rt ms.
           load_manifest fs od = Inr m \<and> blob_names m = Inr (cf, lfs) \<and>
           node_at fs (path_join od cf) \<noteq> None \<and> check_layers fs od lfs = None \<and>
           repo_tag_of pl = Inr rt \<and> open_error fs tp = None \<and>
           fs' = put (put fs (locate fs (path_join od ''manifest.json''))
                        (File (JsonDoc (docker_manifest cf rt lfs))))
                   (locate fs tp) (File (TarArchive ms))"
proof (cases "prepare_image_tar fs od pl")
  case (Inl e)
  with assms show ?thesis by (simp add: create_image_tar_early)
next
  case (Inr r)
  obtain cf lfs dm where r: "r = (cf, lfs, dm)" by (cases r)
  note pr = Inr[unfolded r]
  from prepare_image_tar_Inr[OF pr] obtain m rt where
    ph: "load_manifest fs od = Inr m" "blob_names m = Inr (cf, lfs)"
      "node_at fs (path_join od cf) \<noteq> None" "check_layers fs od lfs = None"
      "repo_tag_of pl = Inr rt" "dm = docker_manifest cf rt lfs"
    by blast
  from create_image_tar_late[OF pr, of tp] assms obtain ms where
    "open_error fs tp = None"
    "fs' = put (put fs (locate fs (path_join od ''manifest.json'')) (File (JsonDoc dm)))
                     (locate fs tp) (File (TarArchive ms))"
    by auto
  with ph show ?thesis by blast
qed

lemma locate_blob:
  "CHR ''/'' \<notin> set x \<Longrightarrow> x \<noteq> [] \<Longrightarrow> x \<noteq> ''.'' \<Longrightarrow> x \<noteq> ''..'' \<Longrightarrow>
     locate fs (path_join od x) = locate fs od @ [x]"
  by (simp add: locate_path_join step_name)

section \<open>Properties of the archive assembler\<close>

text \<open>
  Claim C4. The output directory holds \<^verbatim>\<open>manifest.json\<close> with the registry manifest
  \<^verbatim>\<open>{"config":{"digest":"sha256:aaa"},"layers":[{"digest":"sha256:bbb"}]}\<close> and the files
  \<^verbatim>\<open>sha256_aaa.json\<close> and \<^verbatim>\<open>sha256_bbb.tar.gz\<close>. For a pull link whose repo tag can be
  derived and an archive path that can be opened for writing and is none of the three
  input files, the assembler succeeds; the archive has exactly the members
  \<^verbatim>\<open>manifest.json\<close>, \<^verbatim>\<open>sha256_aaa.json\<close>, \<^verbatim>\<open>sha256_bbb.tar.gz\<close>, in this order; the archived
  manifest is a one-element list with \<open>Config\<close> \<^verbatim>\<open>sha256_aaa.json\<close> and \<open>Layers\<close>
  \<^verbatim>\<open>["sha256_bbb.tar.gz"]\<close>, so every member name is the file name the manifest records.
  Nothing else in the file system changes.
\<close>

theorem assemble_example:
  assumes "node_at fs (path_join od ''manifest.json'') =
             Some (File (JsonDoc (JObj
               [(''config'', JObj [(''digest'', JStr ''sha256:aaa'')]),
                (''layers'', JArr [JObj [(''digest'', JStr ''sha256:bbb'')]])])))"
    and "node_at fs (path_join od ''sha256_aaa.json'') = Some (File c)"
    and "node_at fs (path_join od ''sha256_bbb.tar.gz'') = Some (File l)"
    and "repo_tag_of pl = Inr rt"
    and "open_error fs tp = None"
    and "locate fs tp \<noteq> locate fs (path_join od ''manifest.json'')"
    and "locate fs tp \<noteq> locate fs (path_join od ''sha256_aaa.json'')"
    and "locate fs tp \<noteq> locate fs (path_join od ''sha256_bbb.tar.gz'')"
  shows "create_image_tar fs od tp pl =
           (None,
            put (put fs (locate fs (path_join od ''manifest.json''))
                   (File (JsonDoc (JArr [JObj [(''Config'', JStr ''sha256_aaa.json''),
                                               (''RepoTags'', JArr [JStr rt]),
                                               (''Layers'', JArr [JStr ''sha256_bbb.tar.gz''])]]))))
              (locate fs tp)
              (File (TarArchive
                 [(''manifest.json'',
                   File (JsonDoc (JArr [JObj [(''Config'', JStr ''sha256_aaa.json''),
                                              (''RepoTags'', JArr [JStr rt]),
                                              (''Layers'', JArr [JStr ''sha256_bbb.tar.gz''])]]))),
                  (''sha256_aaa.json'', File c),
                  (''sha256_bbb.tar.gz'', File l)])))"
proof -
  let ?mp = "path_join od ''manifest.json''"
  let ?cp = "path_join od ''sha256_aaa.json''"
  let ?lp = "path_join od ''sha256_bbb.tar.gz''"
  let ?m = "JObj [(''config'', JObj [(''digest'', JStr ''sha256:aaa'')]),
                  (''layers'', JArr [JObj [(''digest'', JStr ''sha256:bbb'')]])]"
  let ?dm = "docker_manifest ''sha256_aaa.json'' rt [''sha256_bbb.tar.gz'']"
  let ?fs1 = "put fs (locate fs ?mp) (File (JsonDoc ?dm))"
  have km: "locate fs ?mp = locate fs od @ [''manifest.json'']" by (rule locate_blob) simp_all
  have kc: "locate fs ?cp = locate fs od @ [''sha256_aaa.json'']" by (rule locate_blob) simp_all
  have kl: "locate fs ?lp = locate fs od @ [''sha256_bbb.tar.gz'']" by (rule locate_blob) simp_all
  have lm: "load_manifest fs od = Inr ?m"
    using assms(1) by (simp add: load_manifest_def)
  have bn: "blob_names ?m = Inr (''sha256_aaa.json'', [''sha256_bbb.tar.gz''])"
    by (simp add: blob_names_def str_replace_def str_split_def)
  have cl: "check_layers fs od [''sha256_bbb.tar.gz''] = None"
    using assms(3) by simp
  have pr: "prepare_image_tar fs od pl = Inr (''sha256_aaa.json'', [''sha256_bbb.tar.gz''], ?dm)"
    using assms(2) by (intro prepare_image_tar_ok[OF lm bn _ cl assms(4)]) simp
  note red = create_image_tar_reduce[OF pr, of tp]
  note nd = rewrite_manifest(2)[OF assms(1)]
  have oe: "open_error ?fs1 tp = None" using nd assms(5) by (simp add: open_error_put_file)
  have lc: "locate ?fs1 p = locate fs p" for p by (rule locate_put)
  have n0: "node_at ?fs1 ?mp = Some (File (JsonDoc ?dm))"
    using nd assms(1) by (intro node_at_put_file_same) simp_all
  have n1: "node_at ?fs1 ?cp = Some (File c)"
    using node_at_put_file_other[OF nd, of ?cp] assms(2) by (simp add: km kc)
  have n2: "node_at ?fs1 ?lp = Some (File l)"
    using node_at_put_file_other[OF nd, of ?lp] assms(3) by (simp add: km kl)
  have wt: "write_tar ?fs1 od tp ''sha256_aaa.json'' [''sha256_bbb.tar.gz''] =
          (None, put ?fs1 (locate ?fs1 tp) (File (TarArchive
              ((''manifest.json'', File (JsonDoc ?dm)) # (lstrip_slash ''sha256_aaa.json'', File c) #
               map (\<lambda>f. (lstrip_slash f, the (node_at ?fs1 (path_join od f)))) [''sha256_bbb.tar.gz'']))))"
    using oe n0 n1 n2 assms(6,7,8) by (intro write_tar_files) (auto simp: lc)
  have wt': "write_tar ?fs1 od tp ''sha256_aaa.json'' [''sha256_bbb.tar.gz''] =
          (None, put ?fs1 (locate fs tp) (File (TarArchive
              [(''manifest.json'', File (JsonDoc ?dm)), (''sha256_aaa.json'', File c),
               (''sha256_bbb.tar.gz'', File l)])))"
    unfolding wt by (simp add: n2 lc lstrip_slash_def)
  show ?thesis
    unfolding red wt' by (simp add: docker_manifest_def)
qed

theorem assemble_example_witness:
  "create_image_tar
     \<lparr>cwd = [''work''],
      nodes = [([''work''], Dir),
               ([''work'', ''out''], Dir),
               ([''work'', ''out'', ''manifest.json''], File (JsonDoc (JObj
                  [(''config'', JObj [(''digest'', JStr ''sha256:aaa'')]),
                   (''layers'', JArr [JObj [(''digest'', JStr ''sha256:bbb'')]])]))),
               ([''work'', ''out'', ''sha256_aaa.json''], File (Raw ''config'')),
               ([''work'', ''out'', ''sha256_bbb.tar.gz''], File (Raw ''layer''))]\<rparr>
     ''out'' ''i_t.tar'' ''h/p/i:t'' =
   (None,
    \<lparr>cwd = [''work''],
     nodes = [([''work''], Dir),
              ([''work'', ''out''], Dir),
              ([''work'', ''out'', ''manifest.json''],
               File (JsonDoc (JArr [JObj [(''Config'', JStr ''sha256_aaa.json''),
                                          (''RepoTags'', JArr [JStr ''h/p/i:t'']),
                                          (''Layers'', JArr [JStr ''sha256_bbb.tar.gz''])]]))),
              ([''work'', ''out'', ''sha256_aaa.json''], File (Raw ''config'')),
              ([''work'', ''out'', ''sha256_bbb.tar.gz''], File (Raw ''layer'')),
              ([''work'', ''i_t.tar''],
               File (TarArchive
                 [(''manifest.json'',
                   File (JsonDoc (JArr [JObj [(''Config'', JStr ''sha256_aaa.json''),
                                              (''RepoTags'', JArr [JStr ''h/p/i:t'']),
                                              (''Layers'', JArr [JStr ''sha256_bbb.tar.gz''])]]))),
                  (''sha256_aaa.json'', File (Raw ''config'')),
                  (''sha256_bbb.tar.gz'', File (Raw ''layer''))]))]\<rparr>)"
  using assemble_example[where
      fs = "\<lparr>cwd = [''work''],
      nodes = [([''work''], Dir),
               ([''work'', ''out''], Dir),
               ([''work'', ''out'', ''manifest.json''], File (JsonDoc (JObj
                  [(''config'', JObj [(''digest'', JStr ''sha256:aaa'')]),
                   (''layers'', JArr [JObj [(''digest'', JStr ''sha256:bbb'')]])]))),
               ([''work'', ''out'', ''sha256_aaa.json''], File (Raw ''config'')),
               ([''work'', ''out'', ''sha256_bbb.tar.gz''], File (Raw ''layer''))]\<rparr>"
      and od = "''out''" and c = "Raw ''config''" and l = "Raw ''layer''" and pl = "''h/p/i:t''"
      and rt = "''h/p/i:t''" and tp = "''i_t.tar''"]
  by (simp add: node_at_def reachable_def walked_def locate_def start_def components_def
        str_split_def step_def entry_def path_join_def suffix_to_prefix repo_tag_of_def
        open_error_def put_def Let_def)

text \<open>
  Claim C5. \<^verbatim>\<open>manifest.json\<close> is a registry manifest with a string config digest and
  string layer digests, the config file is present, and \<open>d\<close> is the first layer digest
  whose file (the digest with \<open>:\<close> replaced by \<open>_\<close>, plus \<^verbatim>\<open>.tar.gz\<close>) is absent. Then
  the assembler raises FileNotFoundError with a message naming that file, and the file
  system is unchanged: no archive is produced.
\<close>

theorem missing_layer_file_reported:
  assumes "node_at fs (path_join od ''manifest.json'') = Some (File (JsonDoc (JObj kvs)))"
    and "map_of kvs ''config'' = Some (JObj ckvs)" and "map_of ckvs ''digest'' = Some (JStr cd)"
    and "map_of kvs ''layers'' = Some (JArr ls)"
    and "map (\<lambda>l. subscript l ''digest'') ls = map (\<lambda>d. Inr (JStr d)) (pre @ d # post)"
    and "node_at fs (path_join od (str_replace '':'' ''_'' cd @ ''.json'')) \<noteq> None"
    and "\<forall>x\<in>set pre. node_at fs (path_join od (str_replace '':'' ''_'' x @ ''.tar.gz'')) \<noteq> None"
    and "node_at fs (path_join od (str_replace '':'' ''_'' d @ ''.tar.gz'')) = None"
  shows "create_image_tar fs od tp pl =
           (Some (FileNotFoundError
                   (''Layer file not found: '' @ path_join od (str_replace '':'' ''_'' d @ ''.tar.gz''))),
            fs)"
proof -
  let ?name = "\<lambda>d. str_replace '':'' ''_'' d @ ''.tar.gz''"
  have lm: "load_manifest fs od = Inr (JObj kvs)"
    using assms(1,2,4) by (rule load_manifest_registry[of fs od kvs])
  have bn: "blob_names (JObj kvs) = Inr (str_replace '':'' ''_'' cd @ ''.json'', map ?name pre @ ?name d # map ?name post)"
    using blob_names_registry[OF assms(2-5)] by simp
  have "\<forall>x\<in>set (map ?name pre). node_at fs (path_join od x) \<noteq> None" using assms(7) by simp
  with assms(8)
  have cl: "check_layers fs od (map ?name pre @ ?name d # map ?name post) =
          Some (FileNotFoundError (''Layer file not found: '' @ path_join od (?name d)))"
    by (intro check_layers_first_missing)
  have "prepare_image_tar fs od pl =
          Inl (FileNotFoundError (''Layer file not found: '' @ path_join od (?name d)))"
    unfolding prepare_image_tar_def using assms(6)
    by (simp only: lm bn cl sum.case prod.case Let_def option.case if_False)
  then show ?thesis by (rule create_image_tar_early)
qed

theorem missing_layer_file_reported_witness:
  "create_image_tar
     \<lparr>cwd = [''work''],
      nodes = [([''work''], Dir),
               ([''work'', ''out''], Dir),
               ([''work'', ''out'', ''manifest.json''], File (JsonDoc (JObj
                  [(''config'', JObj [(''digest'', JStr ''sha256:aaa'')]),
                   (''layers'', JArr [JObj [(''digest'', JStr ''sha256:bbb'')]])]))),
               ([''work'', ''out'', ''sha256_aaa.json''], File (Raw ''config''))]\<rparr>
     ''out'' ''i_t.tar'' ''h/p/i:t'' =
   (Some (FileNotFoundError ''Layer file not found: out/sha256_bbb.tar.gz''),
    \<lparr>cwd = [''work''],
      nodes = [([''work''], Dir),
               ([''work'', ''out''], Dir),
               ([''work'', ''out'', ''manifest.json''], File (JsonDoc (JObj
                  [(''config'', JObj [(''digest'', JStr ''sha256:aaa'')]),
                   (''layers'', JArr [JObj [(''digest'', JStr ''sha256:bbb'')]])]))),
               ([''work'', ''out'', ''sha256_aaa.json''], File (Raw ''config''))]\<rparr>)"
  using missing_layer_file_reported[where
      fs = "\<lparr>cwd = [''work''],
      nodes = [([''work''], Dir),
               ([''work'', ''out''], Dir),
               ([''work'', ''out'', ''manifest.json''], File (JsonDoc (JObj
                  [(''config'', JObj [(''digest'', JStr ''sha256:aaa'')]),
                   (''layers'', JArr [JObj [(''digest'', JStr ''sha256:bbb'')]])]))),
               ([''work'', ''out'', ''sha256_aaa.json''], File (Raw ''config''))]\<rparr>"
      and od = "''out''"
      and kvs = "[(''config'', JObj [(''digest'', JStr ''sha256:aaa'')]),
        (''layers'', JArr [JObj [(''digest'', JStr ''sha256:bbb'')]])]"
      and ckvs = "[(''digest'', JStr ''sha256:aaa'')]" and cd = "''sha256:aaa''"
      and ls = "[JObj [(''digest'', JStr ''sha256:bbb'')]]" and pre = "[]" and d = "''sha256:bbb''"
      and post = "[]" and tp = "''i_t.tar''" and pl = "''h/p/i:t''"]
  by (simp add: node_at_def reachable_def walked_def locate_def start_def components_def
        str_split_def step_def entry_def path_join_def str_replace_def suffix_to_prefix)

text \<open>
  Claim C8. After a successful run \<^verbatim>\<open>manifest.json\<close> holds the loader manifest, a list
  (or the archive itself, when the archive was written over it). A second run on the
  directory as the first run left it, with any archive path and pull link, raises
  ValueError while validating the manifest and leaves the file system unchanged: it fails
  cleanly and produces no archive.
\<close>

theorem second_assembly_fails_cleanly:
  assumes "create_image_tar fs od tp pl = (None, fs1)"
  shows "create_image_tar fs1 od tp2 pl2 =
           (Some (ValueError
              (if locate fs tp = locate fs (path_join od ''manifest.json'')
               then ''Manifest file is not valid JSON''
               else ''Manifest file is not in the expected format (expected a dictionary).'')),
            fs1)"
proof -
  let ?mp = "path_join od ''manifest.json''"
  from create_image_tar_success[OF assms]
  obtain m cf lfs rt ms where ph: "load_manifest fs od = Inr m" "open_error fs tp = None"
    and fs1: "fs1 = put (put fs (locate fs ?mp) (File (JsonDoc (docker_manifest cf rt lfs))))
                       (locate fs tp) (File (TarArchive ms))"
    by blast
  let ?fsA = "put fs (locate fs ?mp) (File (JsonDoc (docker_manifest cf rt lfs)))"
  note mf = load_manifest_Inr[OF ph(1)]
  note nd = rewrite_manifest(2)[OF mf]
  from mf have ex: "node_at fs ?mp \<noteq> None" by simp
  have nA: "node_at ?fsA ?mp = Some (File (JsonDoc (docker_manifest cf rt lfs)))"
    using nd ex by (intro node_at_put_file_same) simp_all
  from ph(2) have "entry fs (locate fs tp) \<noteq> Some Dir" by (simp add: open_error_None_iff)
  then have ndA: "entry ?fsA (locate fs tp) \<noteq> Some Dir" by (auto simp: entry_put entry_root)
  have n1: "node_at fs1 ?mp =
              (if locate fs tp = locate fs ?mp then Some (File (TarArchive ms))
               else Some (File (JsonDoc (docker_manifest cf rt lfs))))"
  proof (cases "locate fs tp = locate fs ?mp")
    case True
    have "node_at fs1 ?mp = Some (File (TarArchive ms))"
      unfolding fs1 using ndA nA True by (intro node_at_put_file_same) (simp_all add: locate_put)
    with True show ?thesis by simp
  next
    case False
    have "node_at fs1 ?mp = node_at ?fsA ?mp"
      unfolding fs1 using ndA False by (intro node_at_put_file_other) (simp_all add: locate_put)
    with False nA show ?thesis by simp
  qed
  have "load_manifest fs1 od =
          Inl (ValueError
              (if locate fs tp = locate fs ?mp then ''Manifest file is not valid JSON''
               else ''Manifest file is not in the expected format (expected a dictionary).''))"
    by (simp add: load_manifest_def n1 docker_manifest_def)
  then have "prepare_image_tar fs1 od pl2 =
          Inl (ValueError
              (if locate fs tp = locate fs ?mp then ''Manifest file is not valid JSON''
               else ''Manifest file is not in the expected format (expected a dictionary).''))"
    by (simp add: prepare_image_tar_def)
  then show ?thesis by (rule create_image_tar_early)
qed

theorem second_assembly_fails_cleanly_witness:
  "create_image_tar
     \<lparr>cwd = [''work''],
      nodes = [([''work''], Dir),
               ([''work'', ''out''], Dir),
               ([''work'', ''out'', ''manifest.json''],
                File (JsonDoc (JArr [JObj [(''Config'', JStr ''sha256_aaa.json''),
                                           (''RepoTags'', JArr [JStr ''h/p/i:t'']),
                                           (''Layers'', JArr [JStr ''sha256_bbb.tar.gz''])]]))),
               ([''work'', ''out'', ''sha256_aaa.json''], File (Raw ''config'')),
               ([''work'', ''out'', ''sha256_bbb.tar.gz''], File (Raw ''layer'')),
               ([''work'', ''i_t.tar''],
                File (TarArchive
                  [(''manifest.json'',
                    File (JsonDoc (JArr [JObj [(''Config'', JStr ''sha256_aaa.json''),
                                               (''RepoTags'', JArr [JStr ''h/p/i:t'']),
                                               (''Layers'', JArr [JStr ''sha256_bbb.tar.gz''])]]))),
                   (''sha256_aaa.json'', File (Raw ''config'')),
                   (''sha256_bbb.tar.gz'', File (Raw ''layer''))]))]\<rparr>
     ''out'' ''i_t.tar'' ''h/p/i:t'' =
   (Some (ValueError ''Manifest file is not in the expected format (expected a dictionary).''),
    \<lparr>cwd = [''work''],
      nodes = [([''work''], Dir),
               ([''work'', ''out''], Dir),
               ([''work'', ''out'', ''manifest.json''],
                File (JsonDoc (JArr [JObj [(''Config'', JStr ''sha256_aaa.json''),
                                           (''RepoTags'', JArr [JStr ''h/p/i:t'']),
                                           (''Layers'', JArr [JStr ''sha256_bbb.tar.gz''])]]))),
               ([''work'', ''out'', ''sha256_aaa.json''], File (Raw ''config'')),
               ([''work'', ''out'', ''sha256_bbb.tar.gz''], File (Raw ''layer'')),
               ([''work'', ''i_t.tar''],
                File (TarArchive
                  [(''manifest.json'',
                    File (JsonDoc (JArr [JObj [(''Config'', JStr ''sha256_aaa.json''),
                                               (''RepoTags'', JArr [JStr ''h/p/i:t'']),
                                               (''Layers'', JArr [JStr ''sha256_bbb.tar.gz''])]]))),
                   (''sha256_aaa.json'', File (Raw ''config'')),
                   (''sha256_bbb.tar.gz'', File (Raw ''layer''))]))]\<rparr>)"
proof -
  let ?fs0 = "\<lparr>cwd = [''work''],
      nodes = [([''work''], Dir),
               ([''work'', ''out''], Dir),
               ([''work'', ''out'', ''manifest.json''], File (JsonDoc (JObj
                  [(''config'', JObj [(''digest'', JStr ''sha256:aaa'')]),
                   (''layers'', JArr [JObj [(''digest'', JStr ''sha256:bbb'')]])]))),
               ([''work'', ''out'', ''sha256_aaa.json''], File (Raw ''config'')),
               ([''work'', ''out'', ''sha256_bbb.tar.gz''], File (Raw ''layer''))]\<rparr>"
  let ?fs1 = "\<lparr>cwd = [''work''],
      nodes = [([''work''], Dir),
               ([''work'', ''out''], Dir),
               ([''work'', ''out'', ''manifest.json''],
                File (JsonDoc (JArr [JObj [(''Config'', JStr ''sha256_aaa.json''),
                                           (''RepoTags'', JArr [JStr ''h/p/i:t'']),
                                           (''Layers'', JArr [JStr ''sha256_bbb.tar.gz''])]]))),
               ([''work'', ''out'', ''sha256_aaa.json''], File (Raw ''config'')),
               ([''work'', ''out'', ''sha256_bbb.tar.gz''], File (Raw ''layer'')),
               ([''work'', ''i_t.tar''],
                File (TarArchive
                  [(''manifest.json'',
                    File (JsonDoc (JArr [JObj [(''Config'', JStr ''sha256_aaa.json''),
                                               (''RepoTags'', JArr [JStr ''h/p/i:t'']),
                                               (''Layers'', JArr [JStr ''sha256_bbb.tar.gz''])]]))),
                   (''sha256_aaa.json'', File (Raw ''config'')),
                   (''sha256_bbb.tar.gz'', File (Raw ''layer''))]))]\<rparr>"
  have first: "create_image_tar ?fs0 ''out'' ''i_t.tar'' ''h/p/i:t'' = (None, ?fs1)"
    by (simp add: create_image_tar_def prepare_image_tar_def load_manifest_def blob_names_def
        node_at_def reachable_def walked_def locate_def start_def components_def step_def
        entry_def path_join_def str_replace_def str_split_def repo_tag_of_def write_file_def
        open_error_def put_def write_tar_def tar_open_def tar_add_def tar_member_def
        lstrip_slash_def docker_manifest_def suffix_to_prefix Let_def)
  from second_assembly_fails_cleanly[OF first, of "''i_t.tar''" "''h/p/i:t''"]
  show ?thesis
    by (simp add: locate_def start_def components_def str_split_def step_def path_join_def
          suffix_to_prefix)
qed

text \<open>
  Claim C9, as amended. A failure of the assembler is of one of two kinds. Either it is
  raised by lines 139--190, before anything is written: a missing manifest, config or
  layer file (FileNotFoundError naming it), a manifest that is not valid, or a name or
  repo tag that cannot be derived; then the file system is exactly as it was, the manifest
  keeps its content and no archive file is produced. Or \<^verbatim>\<open>tarfile.open\<close> raises on the
  archive path; then \<^verbatim>\<open>manifest.json\<close> has been rewritten with the loader manifest,
  nothing else has changed and no archive file is produced. The file system modelled
  here has no permissions and no input/output errors, so on files that passed the checks
  rewriting the manifest and \<^verbatim>\<open>tar.add\<close> do not raise, and there is no third kind.
\<close>

theorem assembly_failure_leaves_directory:
  assumes "create_image_tar fs od tp pl = (Some e, fs')"
  shows "(prepare_image_tar fs od pl = Inl e \<and> fs' = fs) \<or>
         (\<exists>cf lfs dm.
            prepare_image_tar fs od pl = Inr (cf, lfs, dm) \<and>
            tar_open (put fs (locate fs (path_join od ''manifest.json'')) (File (JsonDoc dm))) tp
              = Inl e \<and>
            fs' = put fs (locate fs (path_join od ''manifest.json'')) (File (JsonDoc dm)))"
proof (cases "prepare_image_tar fs od pl")
  case (Inl e')
  with assms create_image_tar_early[OF Inl, of tp] show ?thesis by simp
next
  case (Inr r)
  obtain cf lfs dm where r: "r = (cf, lfs, dm)" by (cases r)
  note pr = Inr[unfolded r]
  from create_image_tar_late[OF pr, of tp] assms
  have "tar_open (put fs (locate fs (path_join od ''manifest.json'')) (File (JsonDoc dm))) tp
              = Inl e \<and>
        fs' = put fs (locate fs (path_join od ''manifest.json'')) (File (JsonDoc dm))"
    by auto
  with pr show ?thesis by blast
qed

text \<open>The witness: the directory of claim C4 and a pull link with two digest markers. The
  repo tag cannot be derived, and the directory is as it was.\<close>

theorem assembly_failure_leaves_directory_witness:
  "create_image_tar
     \<lparr>cwd = [''work''],
      nodes = [([''work''], Dir),
               ([''work'', ''out''], Dir),
               ([''work'', ''out'', ''manifest.json''], File (JsonDoc (JObj
                  [(''config'', JObj [(''digest'', JStr ''sha256:aaa'')]),
                   (''layers'', JArr [JObj [(''digest'', JStr ''sha256:bbb'')]])]))),
               ([''work'', ''out'', ''sha256_aaa.json''], File (Raw ''config'')),
               ([''work'', ''out'', ''sha256_bbb.tar.gz''], File (Raw ''layer''))]\<rparr>
     ''out'' ''i_t.tar'' ''h/p/i@sha256:aa@sha256:bb'' =
   (Some (ValueError ''too many values to unpack (expected 2)''),
    \<lparr>cwd = [''work''],
      nodes = [([''work''], Dir),
               ([''work'', ''out''], Dir),
               ([''work'', ''out'', ''manifest.json''], File (JsonDoc (JObj
                  [(''config'', JObj [(''digest'', JStr ''sha256:aaa'')]),
                   (''layers'', JArr [JObj [(''digest'', JStr ''sha256:bbb'')]])]))),
               ([''work'', ''out'', ''sha256_aaa.json''], File (Raw ''config'')),
               ([''work'', ''out'', ''sha256_bbb.tar.gz''], File (Raw ''layer''))]\<rparr>)"
proof -
  let ?fs0 = "\<lparr>cwd = [''work''],
      nodes = [([''work''], Dir),
               ([''work'', ''out''], Dir),
               ([''work'', ''out'', ''manifest.json''], File (JsonDoc (JObj
                  [(''config'', JObj [(''digest'', JStr ''sha256:aaa'')]),
                   (''layers'', JArr [JObj [(''digest'', JStr ''sha256:bbb'')]])]))),
               ([''work'', ''out'', ''sha256_aaa.json''], File (Raw ''config'')),
               ([''work'', ''out'', ''sha256_bbb.tar.gz''], File (Raw ''layer''))]\<rparr>"
  let ?run = "create_image_tar ?fs0 ''out'' ''i_t.tar'' ''h/p/i@sha256:aa@sha256:bb''"
  have pr: "prepare_image_tar ?fs0 ''out'' ''h/p/i@sha256:aa@sha256:bb'' =
              Inl (ValueError ''too many values to unpack (expected 2)'')"
    by (simp add: prepare_image_tar_def load_manifest_def blob_names_def
        node_at_def reachable_def walked_def locate_def start_def components_def step_def
        entry_def path_join_def str_replace_def str_split_def repo_tag_of_def unpack2_def
        suffix_to_prefix Let_def)
  have e: "fst ?run = Some (ValueError ''too many values to unpack (expected 2)'')"
    by (simp add: create_image_tar_def pr)
  have "?run = (Some (ValueError ''too many values to unpack (expected 2)''), snd ?run)"
    using e by (simp add: prod_eq_iff)
  from assembly_failure_leaves_directory[OF this] pr have "snd ?run = ?fs0" by simp
  with e show ?thesis by (simp add: prod_eq_iff)
qed

text \<open>
  Claim C9 as stated fails when the archive cannot be opened, here because the directory
  of the archive path does not exist: \<^verbatim>\<open>manifest.json\<close> has been overwritten with the
  loader manifest before \<^verbatim>\<open>tarfile.open\<close> raises.
\<close>

theorem assembly_failure_counterexample:
  "create_image_tar
     \<lparr>cwd = [''work''],
      nodes = [([''work''], Dir),
               ([''work'', ''out''], Dir),
               ([''work'', ''out'', ''manifest.json''], File (JsonDoc (JObj
                  [(''config'', JObj [(''digest'', JStr ''sha256:aaa'')]),
                   (''layers'', JArr [JObj [(''digest'', JStr ''sha256:bbb'')]])]))),
               ([''work'', ''out'', ''sha256_aaa.json''], File (Raw ''config'')),
               ([''work'', ''out'', ''sha256_bbb.tar.gz''], File (Raw ''layer''))]\<rparr>
     ''out'' ''nodir/i_t.tar'' ''h/p/i:t'' =
   (Some (FileNotFoundError ''nodir/i_t.tar''),
    \<lparr>cwd = [''work''],
      nodes = [([''work''], Dir),
               ([''work'', ''out''], Dir),
               ([''work'', ''out'', ''manifest.json''],
                File (JsonDoc (JArr [JObj [(''Config'', JStr ''sha256_aaa.json''),
                                           (''RepoTags'', JArr [JStr ''h/p/i:t'']),
                                           (''Layers'', JArr [JStr ''sha256_bbb.tar.gz''])]]))),
               ([''work'', ''out'', ''sha256_aaa.json''], File (Raw ''config'')),
               ([''work'', ''out'', ''sha256_bbb.tar.gz''], File (Raw ''layer''))]\<rparr>)"
  by (simp add: create_image_tar_def prepare_image_tar_def load_manifest_def blob_names_def
        node_at_def reachable_def walked_def locate_def start_def components_def step_def
        entry_def path_join_def str_replace_def str_split_def repo_tag_of_def write_file_def
        open_error_def put_def write_tar_def tar_open_def docker_manifest_def suffix_to_prefix
        Let_def)

section \<open>Facts about file systems that differ by written files\<close>


lemma file_writes_locate: "file_writes fs ns fs' \<Longrightarrow> locate fs' p = locate fs p"
  by (simp add: file_writes_def locate_def start_def)

lemma file_writes_reachable: "file_writes fs ns fs' \<Longrightarrow> reachable fs' p = reachable fs p"
  by (simp add: file_writes_def reachable_def walked_def start_def)

lemma file_writes_dir:
  "file_writes fs ns fs' \<Longrightarrow> (entry fs' k = Some Dir) = (entry fs k = Some Dir)"
  by (simp add: file_writes_def)

lemma file_writes_other:
  "file_writes fs ns fs' \<Longrightarrow> k \<notin> locate fs ` set ns \<Longrightarrow> entry fs' k = entry fs k"
  by (simp add: file_writes_def)

lemma file_writes_file:
  "file_writes fs ns fs' \<Longrightarrow> x \<in> set ns \<Longrightarrow> \<exists>b. node_at fs' x = Some (File b)"
  by (simp add: file_writes_def)

lemma node_at_entry: "node_at fs p = Some n \<Longrightarrow> entry fs (locate fs p) = Some n"
  by (auto simp: node_at_def split: if_splits)




lemma file_writes_kept:
  assumes "file_writes fs ns fs'" and "entry fs k \<noteq> None"
  shows "entry fs' k \<noteq> None"
proof (cases "k \<in> locate fs ` set ns")
  case True
  then obtain x where x: "x \<in> set ns" "k = locate fs x" by auto
  from file_writes_file[OF assms(1) x(1)] obtain b where "node_at fs' x = Some (File b)" ..
  then have "entry fs' (locate fs' x) = Some (File b)" by (rule node_at_entry)
  with x(2) show ?thesis by (simp add: file_writes_locate[OF assms(1)])
next
  case False
  with assms show ?thesis by (simp add: file_writes_other)
qed



lemma file_writes_file_kept:
  assumes "file_writes fs ns fs'" and "node_at fs p = Some (File c)"
  shows "\<exists>c'. node_at fs' p = Some (File c')"
proof -
  from assms(2) have x: "p \<noteq> []" "reachable fs p" "entry fs (locate fs p) = Some (File c)"
    by (auto simp: node_at_def split: if_splits)
  then have "entry fs (locate fs p) \<noteq> None" by simp
  from file_writes_kept[OF assms(1) this] obtain n where n: "entry fs' (locate fs p) = Some n"
    by blast
  have "n \<noteq> Dir" using n x(3) file_writes_dir[OF assms(1), of "locate fs p"] by auto
  then obtain c' where "n = File c'" by (cases n) auto
  with n x show ?thesis
    by (simp add: node_at_def file_writes_reachable[OF assms(1)] file_writes_locate[OF assms(1)])
qed

section \<open>Facts about the registry client\<close>










section \<open>Facts about blob file names\<close>







section \<open>Facts about the directories makedirs creates\<close>







section \<open>Facts about the downloads of a pull\<close>





section \<open>Properties of the pull\<close>






section \<open>Facts about a whole run\<close>







section \<open>Properties of a whole run\<close>




end
